theory Spec2Isabelle
  imports Main
begin

section \<open>JavaScript values used by the server\<close>

text \<open>
  A JavaScript string is a sequence of UTF-16 code units; it is modelled as the list of
  its code units, so that the smart quotes and the Unicode white space that the source
  mentions can be written down.  \<open>js\<close> turns an ASCII literal into such a list.

  A JavaScript number that comes out of \<open>parseInt\<close> is either an integer or \<open>NaN\<close>; it is
  modelled as \<open>int option\<close> with \<open>None\<close> for \<open>NaN\<close>.  The model keeps the exact integer where
  the engine rounds to a double (beyond \<open>2^53\<close>) or overflows to \<open>Infinity\<close>; \<open>slice\<close> clamps
  both to the array length, and the comparisons agree for all positions below \<open>2^53\<close>.
\<close>

type_synonym jsstring = "nat list"

type_synonym number = "int option"

definition js :: "string \<Rightarrow> jsstring" where
  "js s = map of_char s"

definition isNaN :: "number \<Rightarrow> bool" where
  "isNaN x = (x = None)"

text \<open>Unary minus: \<open>-NaN\<close> is \<open>NaN\<close>.\<close>

definition neg :: "number \<Rightarrow> number" where
  "neg x = map_option uminus x"

text \<open>\<open>a >= b\<close>, \<open>a <= b\<close> and \<open>a === b\<close> with a number on the left and a possibly-NaN
  number on the right: every comparison with \<open>NaN\<close> is false.\<close>

definition num_ge :: "int \<Rightarrow> number \<Rightarrow> bool" where
  "num_ge a b = (case b of None \<Rightarrow> False | Some y \<Rightarrow> y \<le> a)"

definition num_le :: "int \<Rightarrow> number \<Rightarrow> bool" where
  "num_le a b = (case b of None \<Rightarrow> False | Some y \<Rightarrow> a \<le> y)"

definition num_eq :: "int \<Rightarrow> number \<Rightarrow> bool" where
  "num_eq a b = (case b of None \<Rightarrow> False | Some y \<Rightarrow> a = y)"

text \<open>The white space of ECMAScript (\<open>WhiteSpace\<close> and \<open>LineTerminator\<close>): what \<open>parseInt\<close>
  skips, what \<open>trim\<close> strips and what \<open>\s\<close> matches.\<close>

definition isWhiteSpace :: "nat \<Rightarrow> bool" where
  "isWhiteSpace c =
     (c \<in> set [9, 10, 11, 12, 13, 32, 160, 5760, 8232, 8233, 8239, 8287, 12288, 65279]
      \<or> (8192 \<le> c \<and> c \<le> 8202))"

definition digitValue :: "nat \<Rightarrow> nat option" where
  "digitValue c =
     (if 48 \<le> c \<and> c \<le> 57 then Some (c - 48)
      else if 97 \<le> c \<and> c \<le> 122 then Some (c - 87)
      else if 65 \<le> c \<and> c \<le> 90 then Some (c - 55)
      else None)"

definition isRadixDigit :: "nat \<Rightarrow> nat \<Rightarrow> bool" where
  "isRadixDigit R c = (case digitValue c of None \<Rightarrow> False | Some d \<Rightarrow> d < R)"

definition digitsValue :: "nat \<Rightarrow> jsstring \<Rightarrow> nat" where
  "digitsValue R Z =
     foldl (\<lambda>acc c. acc * R + (case digitValue c of None \<Rightarrow> 0 | Some d \<Rightarrow> d)) 0 Z"

text \<open>
  \<open>parseInt(string)\<close> with no radix, step by step as ECMAScript defines it: skip leading
  white space, read an optional sign, read an optional \<open>0x\<close>/\<open>0X\<close> prefix (radix 16,
  otherwise 10), take the longest run of digits of the radix, and answer \<open>NaN\<close> when that
  run is empty.  Whatever follows the digits is ignored.
\<close>

definition parseInt :: "jsstring \<Rightarrow> number" where
  "parseInt inputString =
     (let S = dropWhile isWhiteSpace inputString;
          sign = (case S of c # _ \<Rightarrow> if c = 45 then (- 1 :: int) else 1 | [] \<Rightarrow> 1);
          S1 = (case S of c # r \<Rightarrow> if c = 43 \<or> c = 45 then r else S | [] \<Rightarrow> S);
          hex = (case S1 of a # b # _ \<Rightarrow> a = 48 \<and> (b = 120 \<or> b = 88) | _ \<Rightarrow> False);
          R = (if hex then 16 else 10);
          S2 = (if hex then drop 2 S1 else S1);
          Z = takeWhile (isRadixDigit R) S2
      in if Z = [] then None else Some (sign * int (digitsValue R Z)))"

text \<open>\<open>parseInt(undefined)\<close> reads the string \<open>"undefined"\<close>, which has no digit.\<close>

definition parseInt_arg :: "jsstring option \<Rightarrow> number" where
  "parseInt_arg a = (case a of None \<Rightarrow> None | Some s \<Rightarrow> parseInt s)"

text \<open>\<open>s.includes(t)\<close>: \<open>t\<close> occurs in \<open>s\<close> as a contiguous run of code units.\<close>

fun includes_str :: "jsstring \<Rightarrow> jsstring \<Rightarrow> bool" where
  "includes_str [] t = (t = [])"
| "includes_str (c # cs) t = (take (length t) (c # cs) = t \<or> includes_str cs t)"

text \<open>\<open>s.split(sep)\<close> for a separator of one code unit: the pieces between all the
  occurrences of the separator, at least one piece.\<close>

fun split :: "nat \<Rightarrow> jsstring \<Rightarrow> jsstring list" where
  "split sep [] = [[]]"
| "split sep (c # cs) =
     (if c = sep then [] # split sep cs
      else (case split sep cs of p # ps \<Rightarrow> (c # p) # ps | [] \<Rightarrow> [[c]]))"

text \<open>The destructuring \<open>const [a, b] = parts\<close>: a missing element is \<open>undefined\<close>.\<close>

definition destructure2 :: "'a list \<Rightarrow> 'a option \<times> 'a option" where
  "destructure2 parts =
     (case parts of [] \<Rightarrow> (None, None) | [a] \<Rightarrow> (Some a, None) | a # b # _ \<Rightarrow> (Some a, Some b))"

text \<open>
  \<open>Array.prototype.slice\<close>: an argument is first made an integer (\<open>NaN\<close> becomes 0), a
  negative index counts from the end, and both ends are clamped to the array.
\<close>

definition ToIntegerOrInfinity :: "number \<Rightarrow> int" where
  "ToIntegerOrInfinity x = (case x of None \<Rightarrow> 0 | Some i \<Rightarrow> i)"

definition relativeIndex :: "int \<Rightarrow> nat \<Rightarrow> nat" where
  "relativeIndex i len = (if i < 0 then nat (max (int len + i) 0) else min (nat i) len)"

definition slice :: "'a list \<Rightarrow> number \<Rightarrow> number \<Rightarrow> 'a list" where
  "slice xs start end =
     (let len = length xs;
          k = relativeIndex (ToIntegerOrInfinity start) len;
          final = relativeIndex (ToIntegerOrInfinity end) len
      in take (final - k) (drop k xs))"

text \<open>\<open>slice\<close> with one argument runs to the end of the array.\<close>

definition slice_from :: "'a list \<Rightarrow> number \<Rightarrow> 'a list" where
  "slice_from xs start = drop (relativeIndex (ToIntegerOrInfinity start) (length xs)) xs"

text \<open>\<open>String(n)\<close> for an integer \<open>n\<close>: its decimal digits, with a minus sign when negative.\<close>

fun nat_str :: "nat \<Rightarrow> jsstring" where
  "nat_str n = (if n < 10 then [48 + n] else nat_str (n div 10) @ [48 + n mod 10])"

declare nat_str.simps [simp del]

definition num_str :: "int \<Rightarrow> jsstring" where
  "num_str i = (if i < 0 then 45 # nat_str (nat (- i)) else nat_str (nat i))"

section \<open>Errors\<close>

text \<open>
  Every \<open>throw new Error(...)\<close> of the main revision is a constructor that carries what
  the message interpolates.  \<open>TypeError\<close> is the error of the engine itself, thrown when
  \<open>for ... of\<close> is given \<open>undefined\<close> to iterate.
\<close>

datatype error =
    InvalidRangeFormat jsstring
  | InvalidParagraphRangeFormat jsstring
  | InvalidScope jsstring
  | SessionNotFound jsstring
  | TalkNotFound jsstring jsstring jsstring
  | ParagraphOutOfRange nat
  | TypeError

section \<open>The range resolver\<close>

text \<open>
  The verses are \<open>any[]\<close> in the source; the resolver reads only the field \<open>verse\<close>, so it
  is modelled over every extension of the record of the two fields all revisions have.
\<close>

record Verse =
  verse :: int
  text' :: jsstring

definition parseVerseRange :: "jsstring \<Rightarrow> 'a Verse_scheme list \<Rightarrow> error + 'a Verse_scheme list" where
  "parseVerseRange rangeStr allVerses =
     (let relative =
            (if includes_str rangeStr (js '':'') then
               (let (position, countStr) = destructure2 (split 58 rangeStr);
                    count = parseInt_arg countStr
                in if position = Some (js ''first'') then Some (slice allVerses (Some 0) count)
                   else if position = Some (js ''last'') then Some (slice_from allVerses (neg count))
                   else None)
             else None)
      in case relative of
           Some selected \<Rightarrow> Inr selected
         | None \<Rightarrow>
             if includes_str rangeStr (js ''-'') then
               (let (startStr, endStr) = destructure2 (split 45 rangeStr);
                    start = parseInt_arg startStr;
                    end = parseInt_arg endStr
                in Inr (filter (\<lambda>v. num_ge (verse v) start \<and> num_le (verse v) end) allVerses))
             else
               (let verseNum = parseInt rangeStr
                in if \<not> isNaN verseNum then Inr (filter (\<lambda>v. num_eq (verse v) verseNum) allVerses)
                   else Inl (InvalidRangeFormat rangeStr)))"

text \<open>A chapter of three verses, used to run the resolver on concrete input.\<close>

definition sample_verses :: "Verse list" where
  "sample_verses =
     [\<lparr>verse = 1, text' = js ''a''\<rparr>, \<lparr>verse = 2, text' = js ''b''\<rparr>, \<lparr>verse = 3, text' = js ''c''\<rparr>]"

section \<open>Paragraph ranges\<close>

text \<open>
  The elements \<open>{ paragraph, text }\<close> that \<open>parseParagraphRange\<close> builds.  Record fields share
  one name space, so the fields of the objects that the tools build carry a prefix
  (\<open>p_text\<close> for \<open>text\<close>); \<open>paragraph'\<close> is primed because the plain word is reserved.
\<close>

record Item =
  paragraph' :: int
  p_text :: jsstring

text \<open>\<open>paragraphs.map((p, i) => ({ paragraph: i + 1, text: p }))\<close>\<close>

definition items_of :: "jsstring list \<Rightarrow> Item list" where
  "items_of paragraphs =
     map (\<lambda>(i, p). \<lparr>paragraph' = int i + 1, p_text = p\<rparr>) (enumerate 0 paragraphs)"

definition parseParagraphRange :: "jsstring \<Rightarrow> jsstring list \<Rightarrow> error + Item list" where
  "parseParagraphRange rangeStr paragraphs =
     (let items = items_of paragraphs;
          relative =
            (if includes_str rangeStr (js '':'') then
               (let (position, countStr) = destructure2 (split 58 rangeStr);
                    count = parseInt_arg countStr
                in if position = Some (js ''first'') then Some (slice items (Some 0) count)
                   else if position = Some (js ''last'') then Some (slice_from items (neg count))
                   else None)
             else None)
      in case relative of
           Some selected \<Rightarrow> Inr selected
         | None \<Rightarrow>
             if includes_str rangeStr (js ''-'') then
               (let (startStr, endStr) = destructure2 (split 45 rangeStr);
                    start = parseInt_arg startStr;
                    end = parseInt_arg endStr
                in Inr (filter (\<lambda>i. num_ge (paragraph' i) start \<and> num_le (paragraph' i) end) items))
             else
               (let num = parseInt rangeStr
                in if \<not> isNaN num then Inr (filter (\<lambda>i. num_eq (paragraph' i) num) items)
                   else Inl (InvalidParagraphRangeFormat rangeStr)))"

text \<open>The unit of a scripture chapter that corresponds to an element of a talk.\<close>

definition item_of_verse :: "'a Verse_scheme \<Rightarrow> Item" where
  "item_of_verse v = \<lparr>paragraph' = verse v, p_text = text' v\<rparr>"

text \<open>The two error messages differ only in the word that names the entity.\<close>

fun paragraph_error :: "error \<Rightarrow> error" where
  "paragraph_error (InvalidRangeFormat s) = InvalidParagraphRangeFormat s"
| "paragraph_error e = e"

section \<open>getScripture of the web-scraping revision\<close>

text \<open>
  In JavaScript \<open>if (x)\<close> takes an absent argument, an empty string and the number 0 alike
  as false.  An optional argument is an \<open>option\<close>, and these are its truth values.
\<close>

definition truthy_str :: "jsstring option \<Rightarrow> bool" where
  "truthy_str x = (case x of None \<Rightarrow> False | Some s \<Rightarrow> s \<noteq> [])"

definition truthy_num :: "int option \<Rightarrow> bool" where
  "truthy_num x = (case x of None \<Rightarrow> False | Some n \<Rightarrow> n \<noteq> 0)"

text \<open>\<open>x || ''\<close>\<close>

definition or_empty :: "jsstring option \<Rightarrow> jsstring" where
  "or_empty x = (case x of None \<Rightarrow> [] | Some s \<Rightarrow> s)"

text \<open>
  The table of collection codes, read here through its own five keys: every other
  collection name is taken as invalid.
\<close>

definition SCRIPTURE_COLLECTIONS :: "(jsstring \<times> jsstring) list" where
  "SCRIPTURE_COLLECTIONS =
     [(js ''old-testament'', js ''ot''),
      (js ''new-testament'', js ''nt''),
      (js ''book-of-mormon'', js ''bofm''),
      (js ''doctrine-and-covenants'', js ''dc-testament''),
      (js ''pearl-of-great-price'', js ''pgp'')]"

definition BASE_URL :: jsstring where
  "BASE_URL = js ''https://www.churchofjesuschrist.org/study''"

text \<open>
  What the network and the HTML parser hand to the function is a parameter: either a
  response that is not \<open>ok\<close> (status and status text), or the \<open>.verse\<close> elements of the page
  read into \<open>allVerses\<close>, with the trimmed text of the first \<open>h1\<close>.
\<close>

datatype Page = NotOk nat jsstring | Fetched "Verse list" jsstring

datatype fetch_error =
    FailedToFetch nat jsstring
  | VerseNotFoundIn int
  | RangeError error
  | TypeError_undefined

text \<open>
  The object \<open>result\<close>.  \<open>g_text\<close>, \<open>g_verse\<close> and \<open>g_verses\<close> are the properties \<open>text\<close>, \<open>verse\<close>
  and \<open>verses\<close>, absent until a branch assigns them.
\<close>

record ScriptureResult =
  g_reference :: jsstring
  g_url :: jsstring
  g_language :: jsstring
  g_chapterTitle :: jsstring
  g_text :: "jsstring option"
  g_verse :: "int option"
  g_verses :: "Verse list option"

datatype scripture_error = InvalidCollection jsstring | ErrorFetchingScripture fetch_error

text \<open>
  \<open>verses[0].verse\<close> on an empty array reads a property of \<open>undefined\<close>: the engine throws a
  \<open>TypeError\<close>, which the \<open>catch\<close> block re-throws wrapped like every error raised inside
  the \<open>try\<close>.
\<close>

definition getScripture ::
  "jsstring \<Rightarrow> jsstring \<Rightarrow> int \<Rightarrow> int option \<Rightarrow> jsstring option \<Rightarrow> jsstring option \<Rightarrow> Page
     \<Rightarrow> scripture_error + ScriptureResult" where
  "getScripture collectionArg bookArg chapterArg verseArg verseRange languageArg page =
     (let language = (case languageArg of None \<Rightarrow> js ''eng'' | Some l \<Rightarrow> l) in
      case map_of SCRIPTURE_COLLECTIONS collectionArg of
        None \<Rightarrow> Inl (InvalidCollection collectionArg)
      | Some collectionCode \<Rightarrow>
          (let url = BASE_URL @ js ''/scriptures/'' @ collectionCode @ js ''/'' @ bookArg @ js ''/''
                       @ num_str chapterArg @ js ''?lang='' @ language;
               attempt =
                 (case page of
                    NotOk status statusText \<Rightarrow> Inl (FailedToFetch status statusText)
                  | Fetched allVerses h1 \<Rightarrow>
                      (let result = \<lparr>g_reference = collectionArg @ js '' '' @ bookArg @ js '' ''
                                                     @ num_str chapterArg,
                                      g_url = url, g_language = language, g_chapterTitle = h1,
                                      g_text = None, g_verse = None, g_verses = None\<rparr>
                       in case (if truthy_num verseArg then verseArg else None) of
                            Some verseNum \<Rightarrow>
                              (case find (\<lambda>v. verse v = verseNum) allVerses of
                                 None \<Rightarrow> Inl (VerseNotFoundIn verseNum)
                               | Some foundVerse \<Rightarrow>
                                   Inr (result\<lparr>g_reference := g_reference result @ js '':''
                                                  @ num_str verseNum,
                                               g_text := Some (text' foundVerse),
                                               g_verse := Some verseNum\<rparr>))
                          | None \<Rightarrow>
                              (case (if truthy_str verseRange then verseRange else None) of
                                 Some rangeStr \<Rightarrow>
                                   (case parseVerseRange rangeStr allVerses of
                                      Inl e \<Rightarrow> Inl (RangeError e)
                                    | Inr verses \<Rightarrow>
                                        (case verses of
                                           [] \<Rightarrow> Inl TypeError_undefined
                                         | first # _ \<Rightarrow>
                                             Inr (result\<lparr>g_verses := Some verses,
                                                         g_reference := g_reference result
                                                           @ js '':'' @ num_str (verse first)
                                                           @ js ''-''
                                                           @ num_str (verse (last verses))\<rparr>)))
                               | None \<Rightarrow> Inr (result\<lparr>g_verses := Some allVerses\<rparr>))))
           in case attempt of
                Inl e \<Rightarrow> Inl (ErrorFetchingScripture e)
              | Inr result \<Rightarrow> Inr result))"

section \<open>The scripture corpus and searchScriptures\<close>

text \<open>
  The JSON files give every verse a \<open>reference\<close> beside \<open>verse\<close> and \<open>text\<close>.  The object
  \<open>scriptureData\<close> is the list of its own entries in the order of \<open>Object.keys\<close>.
\<close>

record ScriptureVerse = Verse +
  reference :: jsstring

record Chapter =
  chapter' :: int
  verses :: "ScriptureVerse list"

record Book =
  book :: jsstring
  chapters :: "Chapter list"

record ScriptureCollectionData =
  books :: "Book list"

type_synonym ScriptureData = "(jsstring \<times> ScriptureCollectionData) list"

text \<open>
  \<open>scriptureData\<close> is created as the plain object \<open>{}\<close>, so \<open>scriptureData[coll]\<close> finds an
  own entry first and otherwise what the object inherits from \<open>Object.prototype\<close>: for the
  names below a function (for \<open>__proto__\<close> the prototype itself), all of them truthy and
  none of them with a property \<open>books\<close>.  For every other key the read gives \<open>undefined\<close>.
\<close>

definition Object_prototype_properties :: "jsstring list" where
  "Object_prototype_properties =
     [js ''constructor'', js ''__defineGetter__'', js ''__defineSetter__'',
      js ''hasOwnProperty'', js ''__lookupGetter__'', js ''__lookupSetter__'',
      js ''isPrototypeOf'', js ''propertyIsEnumerable'', js ''toString'', js ''valueOf'',
      js ''__proto__'', js ''toLocaleString'']"

datatype 'a property = Own 'a | Inherited | Undefined

definition get_property :: "(jsstring \<times> 'a) list \<Rightarrow> jsstring \<Rightarrow> 'a property" where
  "get_property obj key =
     (case map_of obj key of
        Some v \<Rightarrow> Own v
      | None \<Rightarrow> if key \<in> set Object_prototype_properties then Inherited else Undefined)"

text \<open>An element of \<open>matches\<close> and the object that the call returns as JSON text.\<close>

record Match =
  m_collection :: jsstring
  m_book :: jsstring
  m_chapter :: int
  m_verse :: int
  m_reference :: jsstring
  m_text :: jsstring

record SearchResult =
  query :: jsstring
  count :: nat
  results :: "Match list"

text \<open>
  \<open>String.prototype.toLowerCase\<close> is a table of the engine, not of the repository; the
  functions that call it take it as their first argument.  \<open>toLowerCase_ascii\<close> is its
  restriction to ASCII letters, used to run the functions on concrete input.
\<close>

definition toLowerCase_ascii :: "jsstring \<Rightarrow> jsstring" where
  "toLowerCase_ascii s = map (\<lambda>c. if 65 \<le> c \<and> c \<le> 90 then c + 32 else c) s"

text \<open>
  A loop body either falls through to the next iteration or executes the \<open>return\<close> inside
  the innermost loop, which leaves all four loops at once.  The state of the loops is the
  array \<open>matches\<close> together with a counter of the verses whose text has been tested; the
  counter is not in the source and only records how far the traversal went.
\<close>

datatype 'a outcome = Continue 'a | Return 'a

type_synonym search_state = "Match list \<times> nat"

fun verses_loop ::
  "(jsstring \<Rightarrow> jsstring) \<Rightarrow> jsstring \<Rightarrow> int \<Rightarrow> jsstring \<Rightarrow> Book \<Rightarrow> Chapter
     \<Rightarrow> ScriptureVerse list \<Rightarrow> search_state \<Rightarrow> search_state outcome" where
  "verses_loop toLowerCase term maxResults coll b ch [] st = Continue st"
| "verses_loop toLowerCase term maxResults coll b ch (v # vs) (matches, tested) =
     (if includes_str (toLowerCase (text' v)) term then
        (let matches' = matches @ [\<lparr>m_collection = coll, m_book = book b, m_chapter = chapter' ch,
                                     m_verse = verse v, m_reference = reference v,
                                     m_text = text' v\<rparr>]
         in if int (length matches') \<ge> maxResults then Return (matches', Suc tested)
            else verses_loop toLowerCase term maxResults coll b ch vs (matches', Suc tested))
      else verses_loop toLowerCase term maxResults coll b ch vs (matches, Suc tested))"

fun chapters_loop ::
  "(jsstring \<Rightarrow> jsstring) \<Rightarrow> jsstring \<Rightarrow> int \<Rightarrow> int option \<Rightarrow> jsstring \<Rightarrow> Book
     \<Rightarrow> Chapter list \<Rightarrow> search_state \<Rightarrow> search_state outcome" where
  "chapters_loop toLowerCase term maxResults chapterArg coll b [] st = Continue st"
| "chapters_loop toLowerCase term maxResults chapterArg coll b (ch # chs) st =
     (if truthy_num chapterArg \<and> Some (chapter' ch) \<noteq> chapterArg
      then chapters_loop toLowerCase term maxResults chapterArg coll b chs st
      else (case verses_loop toLowerCase term maxResults coll b ch (verses ch) st of
              Return st' \<Rightarrow> Return st'
            | Continue st' \<Rightarrow> chapters_loop toLowerCase term maxResults chapterArg coll b chs st'))"

fun books_loop ::
  "(jsstring \<Rightarrow> jsstring) \<Rightarrow> jsstring \<Rightarrow> int \<Rightarrow> jsstring option \<Rightarrow> int option \<Rightarrow> jsstring
     \<Rightarrow> Book list \<Rightarrow> search_state \<Rightarrow> search_state outcome" where
  "books_loop toLowerCase term maxResults bookArg chapterArg coll [] st = Continue st"
| "books_loop toLowerCase term maxResults bookArg chapterArg coll (b # bs) st =
     (if truthy_str bookArg \<and> Some (book b) \<noteq> bookArg
      then books_loop toLowerCase term maxResults bookArg chapterArg coll bs st
      else (case chapters_loop toLowerCase term maxResults chapterArg coll b (chapters b) st of
              Return st' \<Rightarrow> Return st'
            | Continue st' \<Rightarrow> books_loop toLowerCase term maxResults bookArg chapterArg coll bs st'))"

text \<open>
  The loop over the collections.  An own entry is searched; a key that reads as
  \<open>undefined\<close> is skipped by \<open>if (!collData) continue\<close>; an inherited value passes that test,
  its \<open>books\<close> is \<open>undefined\<close>, and \<open>for (const b of books)\<close> throws a \<open>TypeError\<close>, which
  nothing in the function catches.  The error comes with the counter of the verses tested
  so far.
\<close>

fun collections_loop ::
  "(jsstring \<Rightarrow> jsstring) \<Rightarrow> jsstring \<Rightarrow> int \<Rightarrow> jsstring option \<Rightarrow> int option \<Rightarrow> ScriptureData
     \<Rightarrow> jsstring list \<Rightarrow> search_state \<Rightarrow> (error \<times> nat) + search_state outcome" where
  "collections_loop toLowerCase term maxResults bookArg chapterArg scriptureData [] st =
     Inr (Continue st)"
| "collections_loop toLowerCase term maxResults bookArg chapterArg scriptureData (coll # colls) st =
     (case get_property scriptureData coll of
        Undefined \<Rightarrow>
          collections_loop toLowerCase term maxResults bookArg chapterArg scriptureData colls st
      | Inherited \<Rightarrow> Inl (TypeError, snd st)
      | Own collData \<Rightarrow>
          (case books_loop toLowerCase term maxResults bookArg chapterArg coll (books collData) st of
             Return st' \<Rightarrow> Inr (Return st')
           | Continue st' \<Rightarrow>
               collections_loop toLowerCase term maxResults bookArg chapterArg scriptureData colls st'))"

text \<open>\<open>collection ? [collection] : Object.keys(scriptureData)\<close>\<close>

definition collectionsToSearch :: "jsstring option \<Rightarrow> ScriptureData \<Rightarrow> jsstring list" where
  "collectionsToSearch collectionArg scriptureData =
     (case (if truthy_str collectionArg then collectionArg else None) of
        Some collection \<Rightarrow> [collection]
      | None \<Rightarrow> map fst scriptureData)"

text \<open>
  The call with its arguments destructured: \<open>maxResults\<close> defaults to 25.  Both exits of
  the loops build the same object from \<open>matches\<close>; an error thrown inside the loops leaves
  the call with no object.  The second component of the value is
  the counter of tested verses; \<open>searchScriptures\<close> is the first component alone.
\<close>

definition searchScriptures_traced ::
  "(jsstring \<Rightarrow> jsstring) \<Rightarrow> jsstring \<Rightarrow> jsstring option \<Rightarrow> jsstring option \<Rightarrow> int option
     \<Rightarrow> int option \<Rightarrow> ScriptureData \<Rightarrow> (error + SearchResult) \<times> nat" where
  "searchScriptures_traced toLowerCase queryArg collectionArg bookArg chapterArg maxResultsArg
       scriptureData =
     (let maxResults = (case maxResultsArg of None \<Rightarrow> 25 | Some m \<Rightarrow> m) in
      if truthy_str bookArg \<and> \<not> truthy_str collectionArg then
        (Inl (InvalidScope (js ''If you specify a book you must also specify its collection.'')), 0)
      else if truthy_num chapterArg \<and> \<not> (truthy_str collectionArg \<and> truthy_str bookArg) then
        (Inl (InvalidScope
               (js ''If you specify a chapter you must also specify collection and book.'')), 0)
      else
        (let term = toLowerCase queryArg;
             finish = (\<lambda>(matches, tested).
                         (Inr \<lparr>query = queryArg, count = length matches, results = matches\<rparr>,
                          tested))
         in case collections_loop toLowerCase term maxResults bookArg chapterArg scriptureData
                   (collectionsToSearch collectionArg scriptureData) ([], 0) of
              Inl (e, tested) \<Rightarrow> (Inl e, tested)
            | Inr (Return st) \<Rightarrow> finish st
            | Inr (Continue st) \<Rightarrow> finish st))"

definition searchScriptures ::
  "(jsstring \<Rightarrow> jsstring) \<Rightarrow> jsstring \<Rightarrow> jsstring option \<Rightarrow> jsstring option \<Rightarrow> int option
     \<Rightarrow> int option \<Rightarrow> ScriptureData \<Rightarrow> error + SearchResult" where
  "searchScriptures toLowerCase queryArg collectionArg bookArg chapterArg maxResultsArg scriptureData =
     fst (searchScriptures_traced toLowerCase queryArg collectionArg bookArg chapterArg
            maxResultsArg scriptureData)"

subsection \<open>The full list of matches, as the specification describes it\<close>

text \<open>
  The verses in scope, each with its locator, in the traversal order
  collection, book, chapter, verse.  A collection that the corpus does not hold
  contributes no verse.
\<close>

type_synonym located = "jsstring \<times> Book \<times> Chapter \<times> ScriptureVerse"

definition traversal ::
  "jsstring option \<Rightarrow> jsstring option \<Rightarrow> int option \<Rightarrow> ScriptureData \<Rightarrow> located list" where
  "traversal collectionArg bookArg chapterArg scriptureData =
     concat (map (\<lambda>coll.
       case map_of scriptureData coll of
         None \<Rightarrow> []
       | Some collData \<Rightarrow>
           concat (map (\<lambda>b.
             concat (map (\<lambda>ch. map (\<lambda>v. (coll, b, ch, v)) (verses ch))
               (filter (\<lambda>ch. \<not> (truthy_num chapterArg \<and> Some (chapter' ch) \<noteq> chapterArg))
                  (chapters b))))
             (filter (\<lambda>b. \<not> (truthy_str bookArg \<and> Some (book b) \<noteq> bookArg)) (books collData))))
       (collectionsToSearch collectionArg scriptureData))"

definition is_match :: "(jsstring \<Rightarrow> jsstring) \<Rightarrow> jsstring \<Rightarrow> located \<Rightarrow> bool" where
  "is_match toLowerCase term x =
     (case x of (coll, b, ch, v) \<Rightarrow> includes_str (toLowerCase (text' v)) term)"

definition match_record :: "located \<Rightarrow> Match" where
  "match_record x =
     (case x of (coll, b, ch, v) \<Rightarrow>
        \<lparr>m_collection = coll, m_book = book b, m_chapter = chapter' ch, m_verse = verse v,
         m_reference = reference v, m_text = text' v\<rparr>)"

definition all_matches ::
  "(jsstring \<Rightarrow> jsstring) \<Rightarrow> jsstring \<Rightarrow> jsstring option \<Rightarrow> jsstring option \<Rightarrow> int option
     \<Rightarrow> ScriptureData \<Rightarrow> Match list" where
  "all_matches toLowerCase queryArg collectionArg bookArg chapterArg scriptureData =
     map match_record
       (filter (is_match toLowerCase (toLowerCase queryArg))
          (traversal collectionArg bookArg chapterArg scriptureData))"

text \<open>
  The loop over a flat list of located verses: the four nested loops run this loop over
  \<open>traversal\<close> (lemma \<open>collections_loop_scan\<close>).
\<close>

fun scan ::
  "(jsstring \<Rightarrow> jsstring) \<Rightarrow> jsstring \<Rightarrow> int \<Rightarrow> located list \<Rightarrow> search_state
     \<Rightarrow> search_state outcome" where
  "scan toLowerCase term maxResults [] st = Continue st"
| "scan toLowerCase term maxResults ((coll, b, ch, v) # xs) (matches, tested) =
     (if includes_str (toLowerCase (text' v)) term then
        (let matches' = matches @ [match_record (coll, b, ch, v)]
         in if int (length matches') \<ge> maxResults then Return (matches', Suc tested)
            else scan toLowerCase term maxResults xs (matches', Suc tested))
      else scan toLowerCase term maxResults xs (matches, Suc tested))"

definition final_state :: "'a outcome \<Rightarrow> 'a" where
  "final_state r = (case r of Return st \<Rightarrow> st | Continue st \<Rightarrow> st)"

text \<open>A corpus of one book with one chapter of three verses.\<close>

definition sample_corpus :: ScriptureData where
  "sample_corpus =
     [(js ''nt'',
       \<lparr>books =
          [\<lparr>book = js ''1 Cor'',
            chapters =
              [\<lparr>chapter' = 13,
                verses =
                  [\<lparr>verse = 1, text' = js ''Faith'', reference = js ''13:1''\<rparr>,
                   \<lparr>verse = 2, text' = js ''hope'', reference = js ''13:2''\<rparr>,
                   \<lparr>verse = 3, text' = js ''faith, hope'', reference = js ''13:3''\<rparr>]\<rparr>]\<rparr>]\<rparr>)]"

section \<open>Conference talks and getConferenceTalk\<close>

record ConferenceTalkMeta =
  speaker :: jsstring
  title :: jsstring
  description :: "jsstring option"
  body :: "jsstring list"
  audio :: "jsstring option"
  pdf :: "jsstring option"
  link :: "jsstring option"
  sorting :: "jsstring option"
  session :: jsstring
  slug :: jsstring

text \<open>\<open>sessions\<close> maps the name of every loaded session, its own keys, to the talks of it.\<close>

record ConferenceData =
  sessions :: "jsstring \<rightharpoonup> ConferenceTalkMeta list"
  allTalks :: "ConferenceTalkMeta list"

text \<open>
  \<open>s.replace(/[...]+/g, ' ')\<close>: every maximal run of code units of the class becomes one
  space.
\<close>

function replace_runs :: "(nat \<Rightarrow> bool) \<Rightarrow> jsstring \<Rightarrow> jsstring" where
  "replace_runs cls [] = []"
| "replace_runs cls (c # cs) =
     (if cls c then 32 # replace_runs cls (dropWhile cls cs) else c # replace_runs cls cs)"
  by pat_completeness auto
termination
  by (relation "measure (\<lambda>(cls, s). length s)") (auto simp: length_dropWhile_le le_imp_less_Suc)

text \<open>\<open>s.trim()\<close>\<close>

definition trim :: "jsstring \<Rightarrow> jsstring" where
  "trim s = rev (dropWhile isWhiteSpace (rev (dropWhile isWhiteSpace s)))"

text \<open>
  The local function \<open>normalize\<close>: lower case; the two curly double quotes (U+201C, U+201D),
  the straight double quote and the apostrophe all become \<open>"\<close>; every run of code units
  other than \<open>a-z\<close>, \<open>0-9\<close>, \<open>"\<close> and white space becomes a space; every run of white space
  becomes a space; the ends are trimmed.
\<close>

definition normalize_str :: "(jsstring \<Rightarrow> jsstring) \<Rightarrow> jsstring \<Rightarrow> jsstring" where
  "normalize_str toLowerCase s =
     trim
       (replace_runs isWhiteSpace
          (replace_runs
             (\<lambda>c. \<not> ((97 \<le> c \<and> c \<le> 122) \<or> (48 \<le> c \<and> c \<le> 57) \<or> c = 34 \<or> isWhiteSpace c))
             (map (\<lambda>c. if c = 8220 \<or> c = 8221 \<or> c = 34 \<or> c = 39 then 34 else c)
                (toLowerCase s))))"

text \<open>
  The block of \<open>getConferenceTalk\<close> that assigns \<open>talk\<close>: \<open>Array.prototype.find\<close> returns the
  first element that satisfies the test, or \<open>undefined\<close>.
\<close>

definition lookupTalk ::
  "(jsstring \<Rightarrow> jsstring) \<Rightarrow> ConferenceTalkMeta list \<Rightarrow> jsstring option \<Rightarrow> jsstring option
     \<Rightarrow> ConferenceTalkMeta option" where
  "lookupTalk toLowerCase talks titleArg slugArg =
     (let talk = (if truthy_str slugArg then find (\<lambda>t. Some (slug t) = slugArg) talks else None)
      in if talk = None \<and> truthy_str titleArg then
           (case find (\<lambda>t. Some (title t) = titleArg) talks of
              Some t \<Rightarrow> Some t
            | None \<Rightarrow>
                (let normTitle = normalize_str toLowerCase (or_empty titleArg) in
                 case find (\<lambda>t. normalize_str toLowerCase (title t) = normTitle) talks of
                   Some t \<Rightarrow> Some t
                 | None \<Rightarrow>
                     find (\<lambda>t. includes_str (normalize_str toLowerCase (title t)) normTitle) talks))
         else talk)"

text \<open>The three shapes of the object that the call returns as JSON text.\<close>

datatype TalkResult =
    OneParagraph jsstring jsstring jsstring int "jsstring option"
  | SelectedParagraphs jsstring jsstring jsstring "Item list"
  | WholeTalk jsstring jsstring jsstring "jsstring option" "Item list" "jsstring option"
      "jsstring option" "jsstring option"

text \<open>\<open>talk.body[paragraph - 1]\<close>, which the range check before it keeps inside the array.\<close>

definition element_at :: "'a list \<Rightarrow> int \<Rightarrow> 'a option" where
  "element_at xs i = (if 0 \<le> i \<and> i < int (length xs) then Some (xs ! nat i) else None)"

definition talk_response ::
  "ConferenceTalkMeta \<Rightarrow> int option \<Rightarrow> jsstring option \<Rightarrow> error + TalkResult" where
  "talk_response talk paragraphArg paragraphRange =
     (case (if truthy_num paragraphArg then paragraphArg else None) of
        Some paragraph \<Rightarrow>
          if paragraph < 1 \<or> paragraph > int (length (body talk))
          then Inl (ParagraphOutOfRange (length (body talk)))
          else Inr (OneParagraph (session talk) (title talk) (speaker talk) paragraph
                      (element_at (body talk) (paragraph - 1)))
      | None \<Rightarrow>
          (case (if truthy_str paragraphRange then paragraphRange else None) of
             Some rangeStr \<Rightarrow>
               (case parseParagraphRange rangeStr (body talk) of
                  Inl e \<Rightarrow> Inl e
                | Inr selection \<Rightarrow>
                    Inr (SelectedParagraphs (session talk) (title talk) (speaker talk) selection))
           | None \<Rightarrow>
               Inr (WholeTalk (session talk) (title talk) (speaker talk) (description talk)
                      (items_of (body talk)) (audio talk) (pdf talk) (link talk))))"

definition getConferenceTalk ::
  "(jsstring \<Rightarrow> jsstring) \<Rightarrow> jsstring \<Rightarrow> jsstring option \<Rightarrow> jsstring option \<Rightarrow> int option
     \<Rightarrow> jsstring option \<Rightarrow> ConferenceData \<Rightarrow> error + TalkResult" where
  "getConferenceTalk toLowerCase sessionArg titleArg slugArg paragraphArg paragraphRange
       conferenceData =
     (case sessions conferenceData sessionArg of
        None \<Rightarrow> Inl (SessionNotFound sessionArg)
      | Some talks \<Rightarrow>
          (case lookupTalk toLowerCase talks titleArg slugArg of
             None \<Rightarrow> Inl (TalkNotFound sessionArg (or_empty titleArg) (or_empty slugArg))
           | Some talk \<Rightarrow> talk_response talk paragraphArg paragraphRange))"

subsection \<open>The fallback tiers, as the specification lists them\<close>

text \<open>
  Each tier gives the first talk of the session that passes its test, in the order of the
  session.  The slug tier is tried when a slug is supplied, the three title tiers when a
  title is.
\<close>

definition tier_slug :: "ConferenceTalkMeta list \<Rightarrow> jsstring option \<Rightarrow> ConferenceTalkMeta option" where
  "tier_slug talks slugArg =
     (if truthy_str slugArg then find (\<lambda>t. slug t = or_empty slugArg) talks else None)"

definition tier_exact_title ::
  "ConferenceTalkMeta list \<Rightarrow> jsstring option \<Rightarrow> ConferenceTalkMeta option" where
  "tier_exact_title talks titleArg =
     (if truthy_str titleArg then find (\<lambda>t. title t = or_empty titleArg) talks else None)"

definition tier_normalized_equal ::
  "(jsstring \<Rightarrow> jsstring) \<Rightarrow> ConferenceTalkMeta list \<Rightarrow> jsstring option
     \<Rightarrow> ConferenceTalkMeta option" where
  "tier_normalized_equal toLowerCase talks titleArg =
     (if truthy_str titleArg
      then find (\<lambda>t. normalize_str toLowerCase (title t) = normalize_str toLowerCase (or_empty titleArg)) talks
      else None)"

definition tier_normalized_contains ::
  "(jsstring \<Rightarrow> jsstring) \<Rightarrow> ConferenceTalkMeta list \<Rightarrow> jsstring option
     \<Rightarrow> ConferenceTalkMeta option" where
  "tier_normalized_contains toLowerCase talks titleArg =
     (if truthy_str titleArg
      then find (\<lambda>t. includes_str (normalize_str toLowerCase (title t))
                        (normalize_str toLowerCase (or_empty titleArg))) talks
      else None)"

fun first_some :: "'a option list \<Rightarrow> 'a option" where
  "first_some [] = None"
| "first_some (None # xs) = first_some xs"
| "first_some (Some x # xs) = Some x"

text \<open>A session of three talks.\<close>

definition talk_of :: "jsstring \<Rightarrow> jsstring \<Rightarrow> ConferenceTalkMeta" where
  "talk_of t s =
     \<lparr>speaker = js ''A'', title = t, description = None, body = [js ''p1'', js ''p2''],
      audio = None, pdf = None, link = None, sorting = None, session = js ''2024-10'', slug = s\<rparr>"

definition sample_talks :: "ConferenceTalkMeta list" where
  "sample_talks =
     [talk_of (js ''Be One'') (js ''be-one''),
      talk_of (js ''Faith, Hope'') (js ''faith-hope''),
      talk_of (js ''The Faith of Hope'') (js ''the-faith'')]"

definition sample_conference :: ConferenceData where
  "sample_conference =
     \<lparr>sessions = [js ''2024-10'' \<mapsto> sample_talks], allTalks = sample_talks\<rparr>"

section \<open>Facts about strings and numbers\<close>

lemma js_first: "js ''first'' = [102, 105, 114, 115, 116]"
  by (simp add: js_def)

lemma js_last: "js ''last'' = [108, 97, 115, 116]"
  by (simp add: js_def)

lemma js_colon: "js '':'' = [58]"
  by (simp add: js_def)

lemma js_minus: "js ''-'' = [45]"
  by (simp add: js_def)

lemma js_append: "js (a @ b) = js a @ js b"
  by (simp add: js_def)

lemma includes_str_single: "includes_str s [c] = (c \<in> set s)"
  by (induction s) auto

lemma includes_str_iff: "includes_str s t = (\<exists>pre post. s = pre @ t @ post)"
proof (induction s)
  case Nil
  show ?case by auto
next
  case (Cons c cs)
  have "take (length t) (c # cs) = t \<longleftrightarrow> (\<exists>post. c # cs = t @ post)"
    by (metis append_eq_conv_conj append_take_drop_id)
  moreover have "(\<exists>pre post. c # cs = pre @ t @ post) \<longleftrightarrow>
      (\<exists>post. c # cs = t @ post) \<or> (\<exists>pre post. cs = pre @ t @ post)"
  proof
    assume "\<exists>pre post. c # cs = pre @ t @ post"
    then obtain pre post where h: "c # cs = pre @ t @ post" by blast
    show "(\<exists>post. c # cs = t @ post) \<or> (\<exists>pre post. cs = pre @ t @ post)"
    proof (cases pre)
      case Nil
      with h show ?thesis by auto
    next
      case (Cons p ps)
      with h have "cs = ps @ t @ post" by simp
      then show ?thesis by blast
    qed
  next
    assume "(\<exists>post. c # cs = t @ post) \<or> (\<exists>pre post. cs = pre @ t @ post)"
    then show "\<exists>pre post. c # cs = pre @ t @ post"
    proof
      assume "\<exists>post. c # cs = t @ post"
      then obtain post where "c # cs = [] @ t @ post" by auto
      then show ?thesis by blast
    next
      assume "\<exists>pre post. cs = pre @ t @ post"
      then obtain pre post where "c # cs = (c # pre) @ t @ post" by auto
      then show ?thesis by blast
    qed
  qed
  ultimately show ?case using Cons.IH by simp
qed

lemma split_no_sep: "sep \<notin> set a \<Longrightarrow> split sep a = [a]"
  by (induction a) auto

lemma split_at_sep: "sep \<notin> set a \<Longrightarrow> split sep (a @ sep # b) = a # split sep b"
  by (induction a) auto

lemma split_not_Nil: "split sep s \<noteq> []"
  by (induction s) (auto split: list.splits)

lemma nat_str_digits: "c \<in> set (nat_str n) \<Longrightarrow> 48 \<le> c \<and> c \<le> 57"
proof (induction n arbitrary: c rule: nat_str.induct)
  case (1 n)
  show ?case
  proof (cases "n < 10")
    case True
    with "1.prems" show ?thesis by (simp add: nat_str.simps [of n])
  next
    case False
    with "1.prems" have "c \<in> set (nat_str (n div 10)) \<or> c = 48 + n mod 10"
      by (auto simp add: nat_str.simps [of n])
    then show ?thesis
    proof
      assume "c \<in> set (nat_str (n div 10))"
      with "1.IH" False show ?thesis by blast
    next
      assume "c = 48 + n mod 10"
      moreover have "n mod 10 < 10" by simp
      ultimately show ?thesis by linarith
    qed
  qed
qed

lemma nat_str_not_Nil: "nat_str n \<noteq> []"
  by (subst nat_str.simps) simp

lemma isRadixDigit_10: "isRadixDigit 10 c = (48 \<le> c \<and> c \<le> 57)"
  by (auto simp: isRadixDigit_def digitValue_def)

lemma takeWhile_nat_str: "takeWhile (isRadixDigit 10) (nat_str n) = nat_str n"
  by (simp add: takeWhile_eq_all_conv isRadixDigit_10 nat_str_digits)

lemma digitsValue_snoc:
  "digitsValue R (Z @ [c]) = digitsValue R Z * R + (case digitValue c of None \<Rightarrow> 0 | Some d \<Rightarrow> d)"
  by (simp add: digitsValue_def)

lemma digitsValue_nat_str: "digitsValue 10 (nat_str n) = n"
proof (induction n rule: nat_str.induct)
  case (1 n)
  show ?case
  proof (cases "n < 10")
    case True
    then show ?thesis
      by (simp add: nat_str.simps [of n] digitsValue_def digitValue_def)
  next
    case False
    have d: "digitValue (48 + n mod 10) = Some (n mod 10)"
      by (simp add: digitValue_def)
    from False "1.IH" have "digitsValue 10 (nat_str (n div 10)) = n div 10" by simp
    with False show ?thesis
      by (simp add: nat_str.simps [of n] digitsValue_snoc d)
  qed
qed

lemma digit_not_space: "48 \<le> c \<Longrightarrow> c \<le> 57 \<Longrightarrow> \<not> isWhiteSpace c"
  by (auto simp: isWhiteSpace_def)

lemma parseInt_nat_str: "parseInt (nat_str n) = Some (int n)"
proof -
  obtain c r where cr: "nat_str n = c # r"
    using nat_str_not_Nil [of n] by (cases "nat_str n") auto
  have c: "48 \<le> c \<and> c \<le> 57" using nat_str_digits [of c n] cr by simp
  have r: "\<And>b r'. r = b # r' \<Longrightarrow> 48 \<le> b \<and> b \<le> 57" using nat_str_digits [of _ n] cr by simp
  have S: "dropWhile isWhiteSpace (nat_str n) = c # r" using cr c digit_not_space by simp
  have hex: "(case c # r of a # b # _ \<Rightarrow> a = 48 \<and> (b = 120 \<or> b = 88) | _ \<Rightarrow> False) = False"
    using r by (cases r) auto
  have Z: "takeWhile (isRadixDigit 10) (c # r) = c # r" using takeWhile_nat_str [of n] cr by simp
  have v: "digitsValue 10 (c # r) = n" using digitsValue_nat_str [of n] cr by simp
  show ?thesis
    unfolding parseInt_def S Let_def using c hex v
    by (simp del: takeWhile.simps takeWhile_eq_all_conv add: Z)
qed

lemma parseInt_minus_nat_str: "parseInt (45 # nat_str n) = Some (- int n)"
proof -
  obtain c r where cr: "nat_str n = c # r"
    using nat_str_not_Nil [of n] by (cases "nat_str n") auto
  have r: "\<And>b r'. r = b # r' \<Longrightarrow> 48 \<le> b \<and> b \<le> 57" using nat_str_digits [of _ n] cr by simp
  have S: "dropWhile isWhiteSpace (45 # nat_str n) = 45 # c # r" using cr by (simp add: isWhiteSpace_def)
  have hex: "(case c # r of a # b # _ \<Rightarrow> a = 48 \<and> (b = 120 \<or> b = 88) | _ \<Rightarrow> False) = False"
    using r by (cases r) auto
  have Z: "takeWhile (isRadixDigit 10) (c # r) = c # r" using takeWhile_nat_str [of n] cr by simp
  have v: "digitsValue 10 (c # r) = n" using digitsValue_nat_str [of n] cr by simp
  show ?thesis
    unfolding parseInt_def S Let_def using hex v
    by (simp del: takeWhile.simps takeWhile_eq_all_conv add: Z)
qed

lemma parseInt_num_str: "parseInt (num_str i) = Some i"
  by (simp add: num_str_def parseInt_nat_str parseInt_minus_nat_str)

section \<open>The range resolver: what each form selects\<close>

lemma nat_str_no_colon: "58 \<notin> set (nat_str n)"
  using nat_str_digits [of 58 n] by auto

lemma nat_str_no_minus: "45 \<notin> set (nat_str n)"
  using nat_str_digits [of 45 n] by auto

lemma num_str_no_colon: "58 \<notin> set (num_str i)"
  by (simp add: num_str_def nat_str_no_colon)

lemma relative_first:
  "58 \<notin> set s \<Longrightarrow> parseVerseRange (js ''first:'' @ s) U = Inr (slice U (Some 0) (parseInt s))"
proof -
  assume s: "58 \<notin> set s"
  have sp: "split 58 (js ''first:'' @ s) = [js ''first'', s]"
    using split_at_sep [of 58 "js ''first''" s] split_no_sep [OF s]
    by (simp add: js_def)
  have inc: "includes_str (js ''first:'' @ s) (js '':'')"
    by (simp add: js_colon includes_str_single) (simp add: js_def)
  show ?thesis
    unfolding parseVerseRange_def
    by (simp add: inc sp destructure2_def parseInt_arg_def)
qed

lemma relative_last:
  "58 \<notin> set s \<Longrightarrow> parseVerseRange (js ''last:'' @ s) U = Inr (slice_from U (neg (parseInt s)))"
proof -
  assume s: "58 \<notin> set s"
  have sp: "split 58 (js ''last:'' @ s) = [js ''last'', s]"
    using split_at_sep [of 58 "js ''last''" s] split_no_sep [OF s]
    by (simp add: js_def)
  have inc: "includes_str (js ''last:'' @ s) (js '':'')"
    by (simp add: js_colon includes_str_single) (simp add: js_def)
  have ne: "Some (js ''last'') \<noteq> Some (js ''first'')" by (simp add: js_def)
  show ?thesis
    unfolding parseVerseRange_def
    using ne by (simp add: inc sp destructure2_def parseInt_arg_def)
qed

lemma slice_first_nat: "slice U (Some 0) (Some (int k)) = take k U"
  by (simp add: slice_def ToIntegerOrInfinity_def relativeIndex_def Let_def min_def)

lemma slice_first_neg: "k < 0 \<Longrightarrow> slice U (Some 0) (Some k) = take (length U - nat (- k)) U"
proof -
  assume k: "k < 0"
  then have "nat (max (int (length U) + k) 0) = length U - nat (- k)" by linarith
  with k show ?thesis
    by (simp add: slice_def ToIntegerOrInfinity_def relativeIndex_def Let_def)
qed

lemma slice_from_last_pos: "0 < k \<Longrightarrow> slice_from U (neg (Some (int k))) = drop (length U - k) U"
proof -
  assume k: "0 < k"
  then have "nat (max (int (length U) + - int k) 0) = length U - k" by linarith
  with k show ?thesis
    by (simp add: slice_from_def neg_def ToIntegerOrInfinity_def relativeIndex_def)
qed

lemma slice_from_last_zero: "slice_from U (neg (Some 0)) = U"
  by (simp add: slice_from_def neg_def ToIntegerOrInfinity_def relativeIndex_def)

lemma slice_from_last_neg: "k < 0 \<Longrightarrow> slice_from U (neg (Some k)) = drop (nat (- k)) U"
  by (simp add: slice_from_def neg_def ToIntegerOrInfinity_def relativeIndex_def min_def)

lemma first_count: "parseVerseRange (js ''first:'' @ nat_str k) U = Inr (take k U)"
  by (simp only: relative_first [OF nat_str_no_colon] parseInt_nat_str slice_first_nat)

lemma last_count: "0 < k \<Longrightarrow> parseVerseRange (js ''last:'' @ nat_str k) U = Inr (drop (length U - k) U)"
  by (simp only: relative_last [OF nat_str_no_colon] parseInt_nat_str slice_from_last_pos)

lemma last_zero: "parseVerseRange (js ''last:'' @ nat_str 0) U = Inr U"
  using relative_last [OF nat_str_no_colon, of 0 U] parseInt_nat_str [of 0] slice_from_last_zero [of U]
  by simp

lemma first_negative:
  "k < 0 \<Longrightarrow> parseVerseRange (js ''first:'' @ num_str k) U = Inr (take (length U - nat (- k)) U)"
  by (simp only: relative_first [OF num_str_no_colon] parseInt_num_str slice_first_neg)

lemma last_negative:
  "k < 0 \<Longrightarrow> parseVerseRange (js ''last:'' @ num_str k) U = Inr (drop (nat (- k)) U)"
  by (simp only: relative_last [OF num_str_no_colon] parseInt_num_str slice_from_last_neg)

lemma interval:
  "parseVerseRange (nat_str a @ js ''-'' @ nat_str b) U =
     Inr (filter (\<lambda>u. int a \<le> verse u \<and> verse u \<le> int b) U)"
proof -
  let ?s = "nat_str a @ js ''-'' @ nat_str b"
  have nc: "\<not> includes_str ?s (js '':'')"
    by (simp add: js_colon includes_str_single nat_str_no_colon) (simp add: js_def)
  have inc: "includes_str ?s (js ''-'')"
    by (simp add: js_minus includes_str_single)
  have sp: "split 45 ?s = [nat_str a, nat_str b]"
    using split_at_sep [OF nat_str_no_minus, of a "nat_str b"] split_no_sep [OF nat_str_no_minus, of b]
    by (simp add: js_minus)
  show ?thesis
    unfolding parseVerseRange_def
    by (simp only: nc inc sp if_True if_False Let_def destructure2_def list.case prod.case
        parseInt_arg_def option.case parseInt_nat_str num_ge_def num_le_def)
qed

lemma single:
  "parseVerseRange (nat_str n) U = Inr (filter (\<lambda>u. verse u = int n) U)"
proof -
  have nc: "\<not> includes_str (nat_str n) (js '':'')"
    by (simp add: js_colon includes_str_single nat_str_no_colon)
  have nm: "\<not> includes_str (nat_str n) (js ''-'')"
    by (simp add: js_minus includes_str_single nat_str_no_minus)
  show ?thesis
    unfolding parseVerseRange_def
    by (simp only: nc nm if_False Let_def option.case parseInt_nat_str isNaN_def num_eq_def
        option.distinct not_False_eq_True if_True)
qed

lemma filter_unique: "distinct (map f xs) \<Longrightarrow> length (filter (\<lambda>x. f x = n) xs) \<le> 1"
proof (induction xs)
  case Nil
  show ?case by simp
next
  case (Cons x xs)
  show ?case
  proof (cases "f x = n")
    case True
    with Cons.prems have "\<forall>y\<in>set xs. f y \<noteq> n" by (auto simp: image_iff)
    then have "filter (\<lambda>x. f x = n) xs = []" by (simp add: filter_empty_conv)
    with True show ?thesis by simp
  next
    case False
    with Cons show ?thesis by simp
  qed
qed

section \<open>Paragraph ranges against verse ranges\<close>

lemma slice_map: "slice (map f xs) a b = map f (slice xs a b)"
  by (simp add: slice_def Let_def take_map drop_map)

lemma slice_from_map: "slice_from (map f xs) a = map f (slice_from xs a)"
  by (simp add: slice_from_def drop_map)

lemma items_of_verses:
  assumes "map verse U = map int [1..<Suc (length U)]" and "map text' U = paragraphs"
  shows "items_of paragraphs = map item_of_verse U"
proof (rule nth_equalityI)
  have len: "length paragraphs = length U" using assms(2) by (metis length_map)
  show "length (items_of paragraphs) = length (map item_of_verse U)"
    by (simp add: items_of_def len)
  fix i assume "i < length (items_of paragraphs)"
  then have i: "i < length U" by (simp add: items_of_def len)
  have "verse (U ! i) = map verse U ! i" using i by simp
  also have "\<dots> = int (Suc i)" using i by (simp add: assms(1) del: upt_Suc)
  finally have v: "verse (U ! i) = int i + 1" by simp
  have "text' (U ! i) = map text' U ! i" using i by simp
  then have t: "text' (U ! i) = paragraphs ! i" by (simp add: assms(2))
  show "items_of paragraphs ! i = map item_of_verse U ! i"
    using i len by (simp add: items_of_def nth_enumerate_eq item_of_verse_def v t)
qed

lemma parseParagraphRange_items:
  "items_of paragraphs = map item_of_verse U \<Longrightarrow>
   parseParagraphRange s paragraphs = map_sum paragraph_error (map item_of_verse) (parseVerseRange s U)"
  by (simp add: parseParagraphRange_def parseVerseRange_def Let_def slice_map slice_from_map
      filter_map comp_def item_of_verse_def split: prod.splits)

section \<open>The search loops as one scan of the traversal\<close>

lemma scan_append:
  "scan lc t m (xs @ ys) st =
     (case scan lc t m xs st of Return st' \<Rightarrow> Return st' | Continue st' \<Rightarrow> scan lc t m ys st')"
proof (induction xs arbitrary: st)
  case Nil
  show ?case by simp
next
  case (Cons x xs)
  obtain coll b ch v where x: "x = (coll, b, ch, v)" by (cases x) auto
  obtain ms n where st: "st = (ms, n)" by (cases st) auto
  show ?case unfolding x st by (simp add: Cons.IH Let_def)
qed

lemma verses_loop_scan:
  "verses_loop lc t m coll b ch vs st = scan lc t m (map (\<lambda>v. (coll, b, ch, v)) vs) st"
proof (induction vs arbitrary: st)
  case Nil
  show ?case by simp
next
  case (Cons v vs)
  obtain ms n where st: "st = (ms, n)" by (cases st) auto
  show ?case unfolding st by (simp add: Cons.IH Let_def match_record_def)
qed

lemma chapters_loop_scan:
  "chapters_loop lc t m chapterArg coll b chs st =
     scan lc t m
       (concat (map (\<lambda>ch. map (\<lambda>v. (coll, b, ch, v)) (verses ch))
          (filter (\<lambda>ch. \<not> (truthy_num chapterArg \<and> Some (chapter' ch) \<noteq> chapterArg)) chs))) st"
proof (induction chs arbitrary: st)
  case Nil
  show ?case by simp
next
  case (Cons ch chs)
  show ?case by (simp add: Cons.IH verses_loop_scan scan_append split: outcome.splits)
qed

lemma books_loop_scan:
  "books_loop lc t m bookArg chapterArg coll bs st =
     scan lc t m
       (concat (map (\<lambda>b.
          concat (map (\<lambda>ch. map (\<lambda>v. (coll, b, ch, v)) (verses ch))
            (filter (\<lambda>ch. \<not> (truthy_num chapterArg \<and> Some (chapter' ch) \<noteq> chapterArg))
               (chapters b))))
          (filter (\<lambda>b. \<not> (truthy_str bookArg \<and> Some (book b) \<noteq> bookArg)) bs))) st"
proof (induction bs arbitrary: st)
  case Nil
  show ?case by simp
next
  case (Cons b bs)
  show ?case by (simp add: Cons.IH chapters_loop_scan scan_append split: outcome.splits)
qed

lemma get_property_Own: "get_property obj key = Own v \<longleftrightarrow> map_of obj key = Some v"
  by (auto simp: get_property_def split: option.splits)

lemma get_property_Undefined: "get_property obj key = Undefined \<Longrightarrow> map_of obj key = None"
  by (auto simp: get_property_def split: option.splits if_splits)

lemma get_property_own_key: "key \<in> fst ` set obj \<Longrightarrow> get_property obj key \<noteq> Inherited"
proof -
  assume "key \<in> fst ` set obj"
  then obtain v where "map_of obj key = Some v"
    by (metis map_of_eq_None_iff not_Some_eq)
  then show ?thesis by (simp add: get_property_def)
qed

lemma collections_loop_scan:
  assumes "\<forall>coll\<in>set colls. get_property scriptureData coll \<noteq> Inherited"
  shows "collections_loop lc t m bookArg chapterArg scriptureData colls st =
     Inr (scan lc t m
       (concat (map (\<lambda>coll.
          case map_of scriptureData coll of
            None \<Rightarrow> []
          | Some collData \<Rightarrow>
              concat (map (\<lambda>b.
                concat (map (\<lambda>ch. map (\<lambda>v. (coll, b, ch, v)) (verses ch))
                  (filter (\<lambda>ch. \<not> (truthy_num chapterArg \<and> Some (chapter' ch) \<noteq> chapterArg))
                     (chapters b))))
                (filter (\<lambda>b. \<not> (truthy_str bookArg \<and> Some (book b) \<noteq> bookArg))
                   (books collData))))
          colls)) st)"
  using assms
proof (induction colls arbitrary: st)
  case Nil
  show ?case by simp
next
  case (Cons coll colls)
  then have ih: "\<And>st. collections_loop lc t m bookArg chapterArg scriptureData colls st =
     Inr (scan lc t m
       (concat (map (\<lambda>coll.
          case map_of scriptureData coll of
            None \<Rightarrow> []
          | Some collData \<Rightarrow>
              concat (map (\<lambda>b.
                concat (map (\<lambda>ch. map (\<lambda>v. (coll, b, ch, v)) (verses ch))
                  (filter (\<lambda>ch. \<not> (truthy_num chapterArg \<and> Some (chapter' ch) \<noteq> chapterArg))
                     (chapters b))))
                (filter (\<lambda>b. \<not> (truthy_str bookArg \<and> Some (book b) \<noteq> bookArg))
                   (books collData))))
          colls)) st)"
    by simp
  from Cons.prems have ni: "get_property scriptureData coll \<noteq> Inherited" by simp
  show ?case
  proof (cases "get_property scriptureData coll")
    case (Own collData)
    then have "map_of scriptureData coll = Some collData" by (simp add: get_property_Own)
    with Own show ?thesis
      by (simp add: ih books_loop_scan scan_append split: outcome.splits)
  next
    case Inherited
    with ni show ?thesis by simp
  next
    case Undefined
    then have "map_of scriptureData coll = None" by (rule get_property_Undefined)
    with Undefined show ?thesis by (simp add: ih)
  qed
qed

lemma scan_step:
  "scan lc t m (x # xs) (ms, n) =
     (if is_match lc t x then
        (if m \<le> int (length ms) + 1 then Return (ms @ [match_record x], Suc n)
         else scan lc t m xs (ms @ [match_record x], Suc n))
      else scan lc t m xs (ms, Suc n))"
  by (cases x) (simp add: is_match_def Let_def)

lemma scan_Continue:
  "scan lc t m xs (ms, n) = Continue (ms', n') \<Longrightarrow>
     n' = n + length xs \<and> ms' = ms @ map match_record (filter (is_match lc t) xs)
     \<and> (int (length ms) < m \<longrightarrow> int (length ms') < m)"
proof (induction xs arbitrary: ms n)
  case Nil
  then show ?case by simp
next
  case (Cons x xs)
  show ?case
  proof (cases "is_match lc t x")
    case True
    with Cons.prems have nr: "\<not> m \<le> int (length ms) + 1"
      and s: "scan lc t m xs (ms @ [match_record x], Suc n) = Continue (ms', n')"
      by (auto simp: scan_step split: if_splits)
    note ih = Cons.IH [OF s]
    have 1: "n' = n + length (x # xs)" using ih by simp
    have 2: "ms' = ms @ map match_record (filter (is_match lc t) (x # xs))"
      using ih True by simp
    have "int (length (ms @ [match_record x])) < m" using nr by simp
    with ih have 3: "int (length ms') < m" by blast
    show ?thesis using 1 2 3 by blast
  next
    case False
    with Cons.prems have s: "scan lc t m xs (ms, Suc n) = Continue (ms', n')"
      by (simp add: scan_step)
    note ih = Cons.IH [OF s]
    have 1: "n' = n + length (x # xs)" using ih by simp
    have 2: "ms' = ms @ map match_record (filter (is_match lc t) (x # xs))"
      using ih False by simp
    have 3: "int (length ms) < m \<longrightarrow> int (length ms') < m" using ih by blast
    show ?thesis using 1 2 3 by blast
  qed
qed

lemma scan_Return:
  "scan lc t m xs (ms, n) = Return (ms', n') \<Longrightarrow> int (length ms) < m \<Longrightarrow>
     n < n' \<and> n' \<le> n + length xs
     \<and> ms' = ms @ map match_record (filter (is_match lc t) (take (n' - n) xs))
     \<and> is_match lc t (xs ! (n' - n - 1))
     \<and> int (length ms') = m"
proof (induction xs arbitrary: ms n)
  case Nil
  then show ?case by simp
next
  case (Cons x xs)
  have step: "n < n' \<and> n' \<le> n + length (x # xs)
      \<and> ms' = ms @ map match_record (filter (is_match lc t) (take (n' - n) (x # xs)))
      \<and> is_match lc t ((x # xs) ! (n' - n - 1)) \<and> int (length ms') = m"
    if s: "scan lc t m xs (ms1, Suc n) = Return (ms', n')" and l: "int (length ms1) < m"
      and ms1: "ms1 = ms @ map match_record (filter (is_match lc t) [x])"
    for ms1
  proof -
    note ih = Cons.IH [OF s l]
    from ih have gt: "Suc n < n'" by blast
    then obtain k where k: "n' = Suc (Suc (n + k))"
      by (metis add_Suc_right add_Suc less_imp_Suc_add)
    have d: "n' - n = Suc (Suc k)" "n' - Suc n = Suc k" "n' - n - 1 = Suc k" "n' - Suc n - 1 = k"
      using k by simp_all
    have 1: "n < n'" using gt by simp
    have 2: "n' \<le> n + length (x # xs)" using ih by simp
    have "ms' = ms1 @ map match_record (filter (is_match lc t) (take (Suc k) xs))"
      using ih d by simp
    then have 3: "ms' = ms @ map match_record (filter (is_match lc t) (take (n' - n) (x # xs)))"
      unfolding d ms1 by simp
    have "is_match lc t (xs ! k)" using ih d by simp
    then have 4: "is_match lc t ((x # xs) ! (n' - n - 1))" unfolding d by simp
    have 5: "int (length ms') = m" using ih by blast
    show ?thesis using 1 2 3 4 5 by blast
  qed
  show ?case
  proof (cases "is_match lc t x")
    case True
    show ?thesis
    proof (cases "m \<le> int (length ms) + 1")
      case stop: True
      with True Cons.prems have e: "ms' = ms @ [match_record x]" "n' = Suc n"
        by (simp_all add: scan_step)
      have "int (length ms') = m" using e stop Cons.prems(2) by simp
      with e True show ?thesis by simp
    next
      case go: False
      with True Cons.prems have s: "scan lc t m xs (ms @ [match_record x], Suc n) = Return (ms', n')"
        by (simp add: scan_step)
      from go have l: "int (length (ms @ [match_record x])) < m" by simp
      have "ms @ [match_record x] = ms @ map match_record (filter (is_match lc t) [x])"
        using True by simp
      from step [OF s l this] show ?thesis .
    qed
  next
    case False
    with Cons.prems have s: "scan lc t m xs (ms, Suc n) = Return (ms', n')"
      by (simp add: scan_step)
    have "ms = ms @ map match_record (filter (is_match lc t) [x])"
      using False by simp
    from step [OF s Cons.prems(2) this] show ?thesis .
  qed
qed

lemma scan_matches:
  "int (length ms) < m \<Longrightarrow>
     fst (final_state (scan lc t m xs (ms, n)))
       = ms @ take (nat m - length ms) (map match_record (filter (is_match lc t) xs))"
proof (induction xs arbitrary: ms n)
  case Nil
  show ?case by (simp add: final_state_def)
next
  case (Cons x xs)
  show ?case
  proof (cases "is_match lc t x")
    case True
    show ?thesis
    proof (cases "m \<le> int (length ms) + 1")
      case stop: True
      with Cons.prems have "nat m - length ms = 1" by linarith
      with True stop show ?thesis by (simp add: scan_step final_state_def)
    next
      case go: False
      then have l: "int (length (ms @ [match_record x])) < m" by simp
      from go Cons.prems have "nat m - length ms = Suc (nat m - length (ms @ [match_record x]))"
        by simp
      with True go Cons.IH [OF l] show ?thesis by (simp add: scan_step)
    qed
  next
    case False
    with Cons.IH [OF Cons.prems] show ?thesis by (simp add: scan_step)
  qed
qed

section \<open>Claims about the range resolver\<close>

lemmas js_eval = js_def parseVerseRange_def destructure2_def parseInt_arg_def parseInt_def
  isWhiteSpace_def isRadixDigit_def digitValue_def digitsValue_def slice_def slice_from_def
  relativeIndex_def ToIntegerOrInfinity_def neg_def isNaN_def num_ge_def num_le_def num_eq_def
  num_str_def nat_str.simps sample_verses_def Let_def

text \<open>
  The resolver raises its only error exactly when the string is not a \<open>first:\<close>/\<open>last:\<close>
  window, holds no \<open>-\<close>, and \<open>parseInt\<close> of the whole string is \<open>NaN\<close>.  A \<open>NaN\<close> count or
  bound in the first two forms is never looked at.
\<close>

lemma parseVerseRange_error_iff:
  "(\<exists>e. parseVerseRange s U = Inl e) \<longleftrightarrow>
     \<not> (includes_str s (js '':'') \<and>
        (fst (destructure2 (split 58 s)) = Some (js ''first'')
         \<or> fst (destructure2 (split 58 s)) = Some (js ''last'')))
     \<and> \<not> includes_str s (js ''-'') \<and> isNaN (parseInt s)"
  by (auto simp: parseVerseRange_def Let_def split: prod.splits option.splits if_splits)

lemma parseVerseRange_error_value:
  "parseVerseRange s U = Inl e \<Longrightarrow> e = InvalidRangeFormat s"
  by (auto simp: parseVerseRange_def Let_def split: prod.splits option.splits if_splits)

text \<open>
  C1.  For every sequence \<open>U\<close> and every count \<open>k \<ge> 0\<close>, \<open>"first:k"\<close> selects the first
  \<open>min k n\<close> units (lemma \<open>first_count\<close>, for every \<open>k\<close>) and \<open>"last:k"\<close> the trailing
  \<open>min k n\<close> units (lemma \<open>last_count\<close>, for \<open>k \<ge> 1\<close> only).  At \<open>k = 0\<close> the source evaluates
  \<open>allVerses.slice(-0)\<close>, which is \<open>slice(0)\<close>: \<open>"last:0"\<close> returns the whole sequence where
  the claim promises the trailing zero units, the empty sequence that \<open>"first:0"\<close> gives.
\<close>

theorem C1_last_zero_returns_whole_sequence:
  "parseVerseRange (js ''last:'' @ nat_str 0) sample_verses = Inr sample_verses
   \<and> parseVerseRange (js ''last:'' @ nat_str 0) sample_verses
       \<noteq> Inr (drop (length sample_verses - min 0 (length sample_verses)) sample_verses)
   \<and> parseVerseRange (js ''first:'' @ nat_str 0) sample_verses = Inr []"
  by (simp add: js_eval)

text \<open>
  C2.  As stated, for all integers: the claim fails when the start is negative, because
  the minus sign of \<open>"-3-5"\<close> is taken for the separator; the start is then the empty
  string, \<open>parseInt\<close> gives \<open>NaN\<close>, and no unit is selected although all three positions lie
  in \<open>[-3, 5]\<close>.
\<close>

theorem C2_negative_start_counterexample:
  "parseVerseRange (num_str (- 3) @ js ''-'' @ num_str 5) sample_verses
     \<noteq> Inr (filter (\<lambda>u. - 3 \<le> verse u \<and> verse u \<le> 5) sample_verses)"
  by (simp add: js_eval)

text \<open>
  C2, amended to unsigned decimal numbers.  For all natural numbers \<open>a\<close>, \<open>b\<close> and \<open>n\<close>,
  \<open>"a-b"\<close> returns exactly the units with \<open>a \<le> position \<le> b\<close> in their original order, which
  is the empty sequence, returned as a success, when \<open>a > b\<close>; and \<open>"n"\<close> returns exactly the
  units with \<open>position = n\<close>, at most one when the positions are unique.
\<close>

theorem C2_interval_and_single_number:
  fixes a b n :: nat and U :: "'a Verse_scheme list"
  shows "parseVerseRange (nat_str a @ js ''-'' @ nat_str b) U
           = Inr (filter (\<lambda>u. int a \<le> verse u \<and> verse u \<le> int b) U)
       \<and> (b < a \<longrightarrow> parseVerseRange (nat_str a @ js ''-'' @ nat_str b) U = Inr [])
       \<and> parseVerseRange (nat_str n) U = Inr (filter (\<lambda>u. verse u = int n) U)
       \<and> (distinct (map verse U) \<longrightarrow> length (filter (\<lambda>u. verse u = int n) U) \<le> 1)"
proof -
  have "b < a \<Longrightarrow> filter (\<lambda>u. int a \<le> verse u \<and> verse u \<le> int b) U = []"
    by (auto simp: filter_empty_conv)
  then show ?thesis
    using filter_unique [of verse U "int n"] by (simp add: interval single)
qed

theorem C2_interval_and_single_number_witness:
  "(2::nat) < 5 \<and> distinct (map verse sample_verses)
   \<and> parseVerseRange (js ''5-2'') sample_verses = Inr []
   \<and> parseVerseRange (js ''2-3'') sample_verses = Inr (tl sample_verses)
   \<and> parseVerseRange (js ''2'') sample_verses = Inr [\<lparr>verse = 2, text' = js ''b''\<rparr>]
   \<and> length (filter (\<lambda>u. verse u = 2) sample_verses) \<le> 1"
  using C2_interval_and_single_number [of 5 2 sample_verses 2]
    C2_interval_and_single_number [of 2 3 sample_verses 2]
  by (simp add: js_def nat_str.simps sample_verses_def)

text \<open>
  C3.  The claim asks for \<open>InvalidRangeFormat\<close> whenever a numeric slot holds no number.  The
  source tests \<open>isNaN\<close> only in the single-number form: \<open>"abc"\<close> is rejected, but \<open>"first:x"\<close>
  passes \<open>NaN\<close> to \<open>slice\<close> and \<open>"x-y"\<close> compares against \<open>NaN\<close>, and both return an empty
  sequence as a success.  A string with a colon whose first piece is neither \<open>first\<close> nor
  \<open>last\<close> is not rejected either: \<open>"5:3"\<close> falls through and selects verse 5.
\<close>

theorem C3_nan_slot_is_not_rejected:
  "parseVerseRange (js ''first:x'') sample_verses = Inr []
   \<and> parseVerseRange (js ''x-y'') sample_verses = Inr []
   \<and> parseVerseRange (js ''last:x'') sample_verses = Inr sample_verses
   \<and> parseVerseRange (js ''3:1'') sample_verses = Inr [\<lparr>verse = 3, text' = js ''c''\<rparr>]
   \<and> parseVerseRange (js ''abc'') sample_verses = Inl (InvalidRangeFormat (js ''abc''))"
  by (simp add: js_eval)

text \<open>
  C4.  As stated, for every count \<open>k \<le> 0\<close>: the claim fails for a negative count, which
  \<open>slice\<close> reads as an index from the end: \<open>"first:-1"\<close> returns all units but the last.
\<close>

theorem C4_negative_count_counterexample:
  "parseVerseRange (js ''first:'' @ num_str (- 1)) sample_verses
     = Inr [\<lparr>verse = 1, text' = js ''a''\<rparr>, \<lparr>verse = 2, text' = js ''b''\<rparr>]
   \<and> parseVerseRange (js ''first:'' @ num_str (- 1)) sample_verses \<noteq> Inr []"
  by (simp add: js_eval)

text \<open>
  C4, amended.  For every sequence, \<open>"first:0"\<close> returns the empty sequence, and for every
  count \<open>k < 0\<close> neither form is an error: \<open>"first:k"\<close> returns the units without the last
  \<open>|k|\<close> and \<open>"last:k"\<close> the units without the first \<open>|k|\<close>, so the result is empty exactly
  when \<open>|k|\<close> reaches the length of the sequence.
\<close>

theorem C4_zero_and_negative_counts:
  fixes k :: int and U :: "'a Verse_scheme list"
  shows "parseVerseRange (js ''first:'' @ num_str 0) U = Inr []
       \<and> (k < 0 \<longrightarrow>
            parseVerseRange (js ''first:'' @ num_str k) U = Inr (take (length U - nat (- k)) U)
          \<and> parseVerseRange (js ''last:'' @ num_str k) U = Inr (drop (nat (- k)) U)
          \<and> (take (length U - nat (- k)) U = [] \<longleftrightarrow> length U \<le> nat (- k))
          \<and> (drop (nat (- k)) U = [] \<longleftrightarrow> length U \<le> nat (- k)))"
proof -
  have "parseVerseRange (js ''first:'' @ num_str 0) U = Inr []"
    using first_count [of 0 U] by (simp add: num_str_def)
  then show ?thesis
    by (auto simp: first_negative last_negative)
qed

theorem C4_zero_and_negative_counts_witness:
  "(- 1 :: int) < 0
   \<and> parseVerseRange (js ''first:0'') sample_verses = Inr []
   \<and> parseVerseRange (js ''first:-1'') sample_verses = Inr (take 2 sample_verses)
   \<and> parseVerseRange (js ''last:-1'') sample_verses = Inr (drop 1 sample_verses)
   \<and> parseVerseRange (js ''first:-3'') sample_verses = Inr []
   \<and> parseVerseRange (js ''last:-3'') sample_verses = Inr []"
  using C4_zero_and_negative_counts [of sample_verses "- 1"]
    C4_zero_and_negative_counts [of sample_verses "- 3"]
  by (simp add: js_def num_str_def nat_str.simps sample_verses_def)

text \<open>
  C5.  \<open>parseVerseRange\<close> and \<open>parseParagraphRange\<close> behave identically.  For every range
  expression \<open>s\<close> and every sequence \<open>U\<close> of units with the positions \<open>1, 2, ..., n\<close>, the verse
  resolver on \<open>U\<close> and the paragraph resolver on the texts of \<open>U\<close> either both succeed,
  selecting the same positions with the same texts in the same order, or both fail with
  their invalid-format error for \<open>s\<close>.
\<close>

theorem C5_paragraph_resolver_agrees:
  assumes "map verse U = map int [1..<Suc (length U)]"
  shows "case (parseVerseRange s U, parseParagraphRange s (map text' U)) of
           (Inr selected, Inr selected') \<Rightarrow>
             map verse selected = map paragraph' selected'
             \<and> map text' selected = map p_text selected'
         | (Inl e, Inl e') \<Rightarrow> e = InvalidRangeFormat s \<and> e' = InvalidParagraphRangeFormat s
         | (Inl e, Inr selected') \<Rightarrow> False
         | (Inr selected, Inl e') \<Rightarrow> False"
proof -
  have eq: "parseParagraphRange s (map text' U)
              = map_sum paragraph_error (map item_of_verse) (parseVerseRange s U)"
    using assms by (intro parseParagraphRange_items items_of_verses) simp_all
  show ?thesis
  proof (cases "parseVerseRange s U")
    case (Inl e)
    then have "e = InvalidRangeFormat s" by (rule parseVerseRange_error_value)
    with Inl eq show ?thesis by simp
  next
    case (Inr selected)
    with eq show ?thesis by (simp add: comp_def item_of_verse_def)
  qed
qed

theorem C5_paragraph_resolver_agrees_witness:
  "map verse sample_verses = map int [1..<Suc (length sample_verses)]
   \<and> parseVerseRange (js ''last:2'') sample_verses = Inr (tl sample_verses)
   \<and> parseParagraphRange (js ''last:2'') [js ''a'', js ''b'', js ''c'']
       = Inr [\<lparr>paragraph' = 2, p_text = js ''b''\<rparr>, \<lparr>paragraph' = 3, p_text = js ''c''\<rparr>]
   \<and> parseVerseRange (js ''abc'') sample_verses = Inl (InvalidRangeFormat (js ''abc''))
   \<and> parseParagraphRange (js ''abc'') [js ''a'', js ''b'', js ''c'']
       = Inl (InvalidParagraphRangeFormat (js ''abc''))"
proof -
  have h: "map verse sample_verses = map int [1..<Suc (length sample_verses)]"
    by (simp add: sample_verses_def upt_rec)
  have t: "map text' sample_verses = [js ''a'', js ''b'', js ''c'']"
    by (simp add: sample_verses_def)
  have v: "parseVerseRange (js ''last:2'') sample_verses = Inr (tl sample_verses)"
    "parseVerseRange (js ''abc'') sample_verses = Inl (InvalidRangeFormat (js ''abc''))"
    by (simp_all add: js_eval)
  have "\<exists>sel. parseParagraphRange (js ''last:2'') [js ''a'', js ''b'', js ''c''] = Inr sel
          \<and> map paragraph' sel = [2, 3] \<and> map p_text sel = [js ''b'', js ''c'']"
    using C5_paragraph_resolver_agrees [OF h, of "js ''last:2''"] v(1)
    by (auto simp: t sample_verses_def split: sum.splits)
  then have p1: "parseParagraphRange (js ''last:2'') [js ''a'', js ''b'', js ''c'']
       = Inr [\<lparr>paragraph' = 2, p_text = js ''b''\<rparr>, \<lparr>paragraph' = 3, p_text = js ''c''\<rparr>]"
    by (auto simp: map_eq_Cons_conv)
  have p2: "parseParagraphRange (js ''abc'') [js ''a'', js ''b'', js ''c'']
       = Inl (InvalidParagraphRangeFormat (js ''abc''))"
    using C5_paragraph_resolver_agrees [OF h, of "js ''abc''"] v(2)
    by (auto simp: t split: sum.splits)
  show ?thesis using h v p1 p2 by simp
qed

section \<open>Claims about getScripture\<close>

text \<open>
  C10.  In \<open>getScripture\<close> of the web-scraping revision, when no \<open>verse\<close> is given, a
  \<open>verseRange\<close> is, and the page was fetched: if the resolved range is not empty, the result
  carries the resolved verses and its reference ends in the first and the last resolved
  verse number; if the resolved range is empty, \<open>verses[0].verse\<close> throws and the operation
  fails with the wrapped error instead of returning an empty success.
\<close>

theorem C10_reference_from_resolved_range:
  assumes "\<not> truthy_num verseArg" and "truthy_str (Some rangeStr)"
    and "map_of SCRIPTURE_COLLECTIONS collectionArg = Some code"
    and "parseVerseRange rangeStr allVerses = Inr selected"
  shows "case selected of
           [] \<Rightarrow>
             getScripture collectionArg bookArg chapterArg verseArg (Some rangeStr) languageArg
               (Fetched allVerses h1) = Inl (ErrorFetchingScripture TypeError_undefined)
         | first # rest \<Rightarrow>
             (\<exists>result.
                getScripture collectionArg bookArg chapterArg verseArg (Some rangeStr) languageArg
                  (Fetched allVerses h1) = Inr result
                \<and> g_verses result = Some selected \<and> g_text result = None \<and> g_verse result = None
                \<and> g_reference result = collectionArg @ js '' '' @ bookArg @ js '' ''
                      @ num_str chapterArg @ js '':'' @ num_str (verse first) @ js ''-''
                      @ num_str (verse (last selected)))"
  using assms by (auto simp: getScripture_def Let_def split: list.splits)

theorem C10_reference_from_resolved_range_witness:
  "\<not> truthy_num None \<and> truthy_str (Some (js ''2-3'')) \<and> truthy_str (Some (js ''5-3''))
   \<and> map_of SCRIPTURE_COLLECTIONS (js ''book-of-mormon'') = Some (js ''bofm'')
   \<and> parseVerseRange (js ''2-3'') sample_verses = Inr (tl sample_verses)
   \<and> parseVerseRange (js ''5-3'') sample_verses = Inr []
   \<and> map_sum id g_reference
        (getScripture (js ''book-of-mormon'') (js ''alma'') 32 None (Some (js ''2-3'')) None
           (Fetched sample_verses (js ''Alma 32'')))
       = Inr (js ''book-of-mormon alma 32:2-3'')
   \<and> getScripture (js ''book-of-mormon'') (js ''alma'') 32 None (Some (js ''5-3'')) None
        (Fetched sample_verses (js ''Alma 32'')) = Inl (ErrorFetchingScripture TypeError_undefined)"
proof -
  have a: "\<not> truthy_num None" "truthy_str (Some (js ''2-3''))" "truthy_str (Some (js ''5-3''))"
    by (simp_all add: truthy_num_def truthy_str_def js_def)
  have c: "map_of SCRIPTURE_COLLECTIONS (js ''book-of-mormon'') = Some (js ''bofm'')"
    by (simp add: SCRIPTURE_COLLECTIONS_def js_def)
  have p: "parseVerseRange (js ''2-3'') sample_verses = Inr (tl sample_verses)"
    "parseVerseRange (js ''5-3'') sample_verses = Inr []"
    by (simp_all add: js_eval)
  have n: "tl sample_verses = [\<lparr>verse = 2, text' = js ''b''\<rparr>, \<lparr>verse = 3, text' = js ''c''\<rparr>]"
    by (simp add: sample_verses_def)
  have s: "js ''book-of-mormon'' @ js '' '' @ js ''alma'' @ js '' '' @ num_str 32 @ js '':''
             @ num_str 2 @ js ''-'' @ num_str 3 = js ''book-of-mormon alma 32:2-3''"
    by (simp add: js_def num_str_def nat_str.simps)
  have r1: "map_sum id g_reference
        (getScripture (js ''book-of-mormon'') (js ''alma'') 32 None (Some (js ''2-3'')) None
           (Fetched sample_verses (js ''Alma 32'')))
       = Inr (js ''book-of-mormon alma 32:2-3'')"
    using C10_reference_from_resolved_range [OF a(1) a(2) c p(1), of "js ''alma''" 32 None "js ''Alma 32''"] s
    by (auto simp: n)
  have r2: "getScripture (js ''book-of-mormon'') (js ''alma'') 32 None (Some (js ''5-3'')) None
        (Fetched sample_verses (js ''Alma 32'')) = Inl (ErrorFetchingScripture TypeError_undefined)"
    using C10_reference_from_resolved_range [OF a(1) a(3) c p(2), of "js ''alma''" 32 None "js ''Alma 32''"]
    by simp
  show ?thesis using a c p r1 r2 by simp
qed

section \<open>Claims about searchScriptures\<close>

lemma collectionsToSearch_not_inherited:
  assumes "get_property scriptureData (or_empty collectionArg) \<noteq> Inherited"
  shows "\<forall>coll\<in>set (collectionsToSearch collectionArg scriptureData).
           get_property scriptureData coll \<noteq> Inherited"
proof (cases "truthy_str collectionArg")
  case True
  then obtain c where "collectionArg = Some c" by (cases collectionArg) (auto simp: truthy_str_def)
  with True assms show ?thesis by (simp add: collectionsToSearch_def or_empty_def)
next
  case False
  then show ?thesis by (simp add: collectionsToSearch_def get_property_own_key)
qed

lemma searchScriptures_traced_scan:
  assumes "\<not> (truthy_str bookArg \<and> \<not> truthy_str collectionArg)"
    and "\<not> (truthy_num chapterArg \<and> \<not> (truthy_str collectionArg \<and> truthy_str bookArg))"
    and "get_property scriptureData (or_empty collectionArg) \<noteq> Inherited"
  shows "searchScriptures_traced lc q collectionArg bookArg chapterArg maxResultsArg scriptureData =
          (case final_state
                  (scan lc (lc q) (case maxResultsArg of None \<Rightarrow> 25 | Some m \<Rightarrow> m)
                     (traversal collectionArg bookArg chapterArg scriptureData) ([], 0)) of
             (matches, tested) \<Rightarrow>
               (Inr \<lparr>query = q, count = length matches, results = matches\<rparr>, tested))"
  using assms(1,2)
  by (simp add: searchScriptures_traced_def Let_def traversal_def final_state_def
      collections_loop_scan [OF collectionsToSearch_not_inherited [OF assms(3)]]
      split: outcome.splits)

text \<open>
  A collection argument that names no collection of the corpus but a property that every
  object inherits, such as \<open>constructor\<close>, makes the call throw before any verse is tested.
\<close>

lemma searchScriptures_inherited_collection:
  assumes "\<not> (truthy_str bookArg \<and> \<not> truthy_str collectionArg)"
    and "\<not> (truthy_num chapterArg \<and> \<not> (truthy_str collectionArg \<and> truthy_str bookArg))"
    and "truthy_str collectionArg"
    and "get_property scriptureData (or_empty collectionArg) = Inherited"
  shows "searchScriptures_traced lc q collectionArg bookArg chapterArg maxResultsArg scriptureData
           = (Inl TypeError, 0)"
proof -
  from assms(3) obtain c where c: "collectionArg = Some c"
    by (cases collectionArg) (auto simp: truthy_str_def)
  with assms show ?thesis
    by (simp add: searchScriptures_traced_def Let_def collectionsToSearch_def or_empty_def)
qed

lemmas search_eval = searchScriptures_def searchScriptures_traced_def collectionsToSearch_def
  truthy_str_def truthy_num_def toLowerCase_ascii_def sample_corpus_def js_def Let_def
  all_matches_def traversal_def is_match_def match_record_def get_property_def or_empty_def
  Object_prototype_properties_def

lemma searchScriptures_constructor_throws:
  "searchScriptures_traced toLowerCase_ascii (js ''faith'') (Some (js ''constructor'')) None None
     None sample_corpus = (Inl TypeError, 0)"
  by (simp add: search_eval)

lemma searchScriptures_unknown_collection_is_empty:
  "searchScriptures toLowerCase_ascii (js ''faith'') (Some (js ''xyz'')) None None None
     sample_corpus = Inr \<lparr>query = js ''faith'', count = 0, results = []\<rparr>"
  by (simp add: search_eval)

text \<open>
  C6.  For every query, corpus and positive limit (the argument \<open>maxResults\<close>, 25 when absent)
  and every valid scope whose collection, when given, does not merely name a property
  inherited from \<open>Object.prototype\<close>, the search succeeds with the first \<open>limit\<close> elements of the full list
  of matches in traversal order, so with at most \<open>limit\<close> records, and \<open>count\<close> is the number
  of records returned.  The traversal stops at once: with \<open>tested\<close> the number of verses whose
  text was tested, the records returned are the matches among the first \<open>tested\<close> verses of the
  traversal, and either the full list has \<open>limit\<close> matches or more and the last verse tested is
  the match that filled the limit, or every verse in scope was tested.
\<close>

theorem C6_search_returns_prefix_and_stops:
  assumes "limit = (case maxResultsArg of None \<Rightarrow> 25 | Some m \<Rightarrow> m)" and "0 < limit"
    and "\<not> (truthy_str bookArg \<and> \<not> truthy_str collectionArg)"
    and "\<not> (truthy_num chapterArg \<and> \<not> (truthy_str collectionArg \<and> truthy_str bookArg))"
    and "get_property scriptureData (or_empty collectionArg) \<noteq> Inherited"
    and "full = all_matches lc q collectionArg bookArg chapterArg scriptureData"
    and "trav = traversal collectionArg bookArg chapterArg scriptureData"
  shows "\<exists>found tested.
           searchScriptures_traced lc q collectionArg bookArg chapterArg maxResultsArg scriptureData
             = (Inr \<lparr>query = q, count = length found, results = found\<rparr>, tested)
         \<and> searchScriptures lc q collectionArg bookArg chapterArg maxResultsArg scriptureData
             = Inr \<lparr>query = q, count = length found, results = found\<rparr>
         \<and> found = take (nat limit) full
         \<and> int (length found) \<le> limit
         \<and> tested \<le> length trav
         \<and> found = map match_record (filter (is_match lc (lc q)) (take tested trav))
         \<and> (if limit \<le> int (length full)
             then 0 < tested \<and> is_match lc (lc q) (trav ! (tested - 1)) \<and> int (length found) = limit
             else tested = length trav)"
proof -
  let ?run = "scan lc (lc q) limit trav ([], 0)"
  obtain found tested where ft: "final_state ?run = (found, tested)"
    by (cases "final_state ?run") auto
  have traced: "searchScriptures_traced lc q collectionArg bookArg chapterArg maxResultsArg scriptureData
             = (Inr \<lparr>query = q, count = length found, results = found\<rparr>, tested)"
    using searchScriptures_traced_scan [OF assms(3,4,5), of lc q maxResultsArg] ft
    by (simp add: assms(1,7))
  have l0: "int (length ([] :: Match list)) < limit" using assms(2) by simp
  have "fst (final_state ?run) = [] @ take (nat limit - length ([] :: Match list))
          (map match_record (filter (is_match lc (lc q)) trav))"
    by (rule scan_matches [OF l0])
  then have pre: "found = take (nat limit) full"
    using ft by (simp add: assms(6,7) all_matches_def)
  have full: "full = map match_record (filter (is_match lc (lc q)) trav)"
    by (simp add: assms(6,7) all_matches_def)
  have le: "int (length found) \<le> limit" using pre assms(2) by simp
  have rest: "tested \<le> length trav
         \<and> found = map match_record (filter (is_match lc (lc q)) (take tested trav))
         \<and> (if limit \<le> int (length full)
             then 0 < tested \<and> is_match lc (lc q) (trav ! (tested - 1)) \<and> int (length found) = limit
             else tested = length trav)"
  proof (cases ?run)
    case (Continue st)
    with ft have c: "?run = Continue (found, tested)" by (simp add: final_state_def)
    note sc = scan_Continue [OF c]
    have t: "tested = length trav" using sc by simp
    have f: "found = map match_record (filter (is_match lc (lc q)) trav)" using sc by simp
    have lt: "int (length found) < limit" using sc l0 by blast
    from f full lt have "\<not> limit \<le> int (length full)" by simp
    with t f show ?thesis by simp
  next
    case (Return st)
    with ft have r: "?run = Return (found, tested)" by (simp add: final_state_def)
    note sr = scan_Return [OF r l0]
    have t: "0 < tested" "tested \<le> length trav" using sr by simp_all
    have f: "found = map match_record (filter (is_match lc (lc q)) (take tested trav))"
      using sr by simp
    have m: "is_match lc (lc q) (trav ! (tested - 1))" using sr by simp
    have n: "int (length found) = limit" using sr by blast
    from n pre have "limit \<le> int (length full)" by simp
    with t f m n show ?thesis by simp
  qed
  show ?thesis
    using traced pre le rest by (auto simp: searchScriptures_def)
qed

theorem C6_search_returns_prefix_and_stops_witness:
  "(1::int) = (case Some 1 of None \<Rightarrow> 25 | Some m \<Rightarrow> m) \<and> (0::int) < 1
   \<and> \<not> (truthy_str None \<and> \<not> truthy_str None)
   \<and> \<not> (truthy_num None \<and> \<not> (truthy_str None \<and> truthy_str None))
   \<and> get_property sample_corpus (or_empty None) \<noteq> Inherited
   \<and> all_matches toLowerCase_ascii (js ''FAITH'') None None None sample_corpus
       = [\<lparr>m_collection = js ''nt'', m_book = js ''1 Cor'', m_chapter = 13, m_verse = 1,
           m_reference = js ''13:1'', m_text = js ''Faith''\<rparr>,
          \<lparr>m_collection = js ''nt'', m_book = js ''1 Cor'', m_chapter = 13, m_verse = 3,
           m_reference = js ''13:3'', m_text = js ''faith, hope''\<rparr>]
   \<and> searchScriptures toLowerCase_ascii (js ''FAITH'') None None None (Some 1) sample_corpus
       = Inr \<lparr>query = js ''FAITH'', count = 1,
              results = [\<lparr>m_collection = js ''nt'', m_book = js ''1 Cor'', m_chapter = 13,
                          m_verse = 1, m_reference = js ''13:1'', m_text = js ''Faith''\<rparr>]\<rparr>
   \<and> snd (searchScriptures_traced toLowerCase_ascii (js ''FAITH'') None None None (Some 1)
             sample_corpus) = 1"
proof -
  have h: "(1::int) = (case Some 1 of None \<Rightarrow> 25 | Some m \<Rightarrow> m)" "(0::int) < 1"
    "\<not> (truthy_str None \<and> \<not> truthy_str None)"
    "\<not> (truthy_num None \<and> \<not> (truthy_str None \<and> truthy_str None))"
    "get_property sample_corpus (or_empty None) \<noteq> Inherited"
    by (simp_all add: truthy_str_def truthy_num_def get_property_def or_empty_def
        sample_corpus_def Object_prototype_properties_def js_def)
  have full: "all_matches toLowerCase_ascii (js ''FAITH'') None None None sample_corpus
       = [\<lparr>m_collection = js ''nt'', m_book = js ''1 Cor'', m_chapter = 13, m_verse = 1,
           m_reference = js ''13:1'', m_text = js ''Faith''\<rparr>,
          \<lparr>m_collection = js ''nt'', m_book = js ''1 Cor'', m_chapter = 13, m_verse = 3,
           m_reference = js ''13:3'', m_text = js ''faith, hope''\<rparr>]"
    by (simp add: search_eval)
  have res: "searchScriptures toLowerCase_ascii (js ''FAITH'') None None None (Some 1) sample_corpus
       = Inr \<lparr>query = js ''FAITH'', count = 1,
              results = [\<lparr>m_collection = js ''nt'', m_book = js ''1 Cor'', m_chapter = 13,
                          m_verse = 1, m_reference = js ''13:1'', m_text = js ''Faith''\<rparr>]\<rparr>"
    using C6_search_returns_prefix_and_stops [OF h refl refl, of toLowerCase_ascii "js ''FAITH''"]
    by (auto simp: full)
  have tested: "snd (searchScriptures_traced toLowerCase_ascii (js ''FAITH'') None None None (Some 1)
             sample_corpus) = 1"
    by (simp add: search_eval)
  show ?thesis using h full res tested by simp
qed

text \<open>
  C7.  The search is case-insensitive.  Two queries with the same lower-case form give the
  same records and the same count, for every corpus, scope and limit (the results differ
  only in the echoed \<open>query\<close>).  A verse matches if and only if its lower-cased text contains
  the lower-cased query as a contiguous run, and under a valid scope and a positive limit
  the records returned are the first \<open>limit\<close> verses of the traversal that do.  The last
  part leaves out the one scope for which the call throws with either query: a collection
  argument that only names a property inherited from \<open>Object.prototype\<close>.
\<close>

theorem C7_search_is_case_insensitive:
  fixes lc :: "jsstring \<Rightarrow> jsstring"
  shows "(lc q1 = lc q2 \<longrightarrow>
            map_sum id results
              (searchScriptures lc q1 collectionArg bookArg chapterArg maxResultsArg scriptureData)
          = map_sum id results
              (searchScriptures lc q2 collectionArg bookArg chapterArg maxResultsArg scriptureData)
          \<and> map_sum id count
              (searchScriptures lc q1 collectionArg bookArg chapterArg maxResultsArg scriptureData)
          = map_sum id count
              (searchScriptures lc q2 collectionArg bookArg chapterArg maxResultsArg scriptureData))
       \<and> (is_match lc (lc q) (coll, b, ch, v) \<longleftrightarrow> (\<exists>pre post. lc (text' v) = pre @ lc q @ post))
       \<and> (0 < (case maxResultsArg of None \<Rightarrow> 25 | Some m \<Rightarrow> m)
          \<and> \<not> (truthy_str bookArg \<and> \<not> truthy_str collectionArg)
          \<and> \<not> (truthy_num chapterArg \<and> \<not> (truthy_str collectionArg \<and> truthy_str bookArg))
          \<and> get_property scriptureData (or_empty collectionArg) \<noteq> Inherited \<longrightarrow>
            map_sum id results
              (searchScriptures lc q collectionArg bookArg chapterArg maxResultsArg scriptureData)
          = Inr (take (nat (case maxResultsArg of None \<Rightarrow> 25 | Some m \<Rightarrow> m))
                  (map match_record
                     (filter (\<lambda>(coll, b, ch, v). \<exists>pre post. lc (text' v) = pre @ lc q @ post)
                        (traversal collectionArg bookArg chapterArg scriptureData)))))"
proof -
  have same: "lc q1 = lc q2 \<Longrightarrow>
      map_sum id results
        (searchScriptures lc q1 collectionArg bookArg chapterArg maxResultsArg scriptureData)
      = map_sum id results
        (searchScriptures lc q2 collectionArg bookArg chapterArg maxResultsArg scriptureData)
      \<and> map_sum id count
        (searchScriptures lc q1 collectionArg bookArg chapterArg maxResultsArg scriptureData)
      = map_sum id count
        (searchScriptures lc q2 collectionArg bookArg chapterArg maxResultsArg scriptureData)"
    by (cases "collections_loop lc (lc q2) (case maxResultsArg of None \<Rightarrow> 25 | Some m \<Rightarrow> m)
          bookArg chapterArg scriptureData (collectionsToSearch collectionArg scriptureData)
          ([], 0)")
      (auto simp: searchScriptures_def searchScriptures_traced_def Let_def
        split: outcome.splits prod.splits)
  have sub: "is_match lc (lc q) x = (case x of (coll, b, ch, v) \<Rightarrow>
      \<exists>pre post. lc (text' v) = pre @ lc q @ post)" for x
    by (cases x) (simp add: is_match_def includes_str_iff)
  have pred: "is_match lc (lc q)
      = (\<lambda>(coll, b, ch, v). \<exists>pre post. lc (text' v) = pre @ lc q @ post)"
    by (rule ext) (simp add: sub)
  have lim: "map_sum id results
        (searchScriptures lc q collectionArg bookArg chapterArg maxResultsArg scriptureData)
      = Inr (take (nat (case maxResultsArg of None \<Rightarrow> 25 | Some m \<Rightarrow> m))
              (map match_record
                 (filter (\<lambda>(coll, b, ch, v). \<exists>pre post. lc (text' v) = pre @ lc q @ post)
                    (traversal collectionArg bookArg chapterArg scriptureData))))"
    if "0 < (case maxResultsArg of None \<Rightarrow> 25 | Some m \<Rightarrow> m)"
      and "\<not> (truthy_str bookArg \<and> \<not> truthy_str collectionArg)"
      and "\<not> (truthy_num chapterArg \<and> \<not> (truthy_str collectionArg \<and> truthy_str bookArg))"
      and "get_property scriptureData (or_empty collectionArg) \<noteq> Inherited"
  proof -
    have l0: "int (length ([] :: Match list)) < (case maxResultsArg of None \<Rightarrow> 25 | Some m \<Rightarrow> m)"
      using that(1) by simp
    show ?thesis
      using searchScriptures_traced_scan [OF that(2,3,4), of lc q maxResultsArg]
        scan_matches [OF l0, of lc "lc q"
          "traversal collectionArg bookArg chapterArg scriptureData" 0]
      by (simp add: searchScriptures_def pred split: prod.splits)
  qed
  show ?thesis
    using same lim sub [of "(coll, b, ch, v)"] by simp
qed

theorem C7_search_is_case_insensitive_witness:
  "toLowerCase_ascii (js ''FAITH'') = toLowerCase_ascii (js ''faith'')
   \<and> get_property sample_corpus (or_empty None) \<noteq> Inherited
   \<and> map_sum id results
       (searchScriptures toLowerCase_ascii (js ''FAITH'') None None None None sample_corpus)
     = map_sum id results
       (searchScriptures toLowerCase_ascii (js ''faith'') None None None None sample_corpus)
   \<and> map_sum id results
       (searchScriptures toLowerCase_ascii (js ''faith'') None None None None sample_corpus)
     = Inr [\<lparr>m_collection = js ''nt'', m_book = js ''1 Cor'', m_chapter = 13, m_verse = 1,
             m_reference = js ''13:1'', m_text = js ''Faith''\<rparr>,
            \<lparr>m_collection = js ''nt'', m_book = js ''1 Cor'', m_chapter = 13, m_verse = 3,
             m_reference = js ''13:3'', m_text = js ''faith, hope''\<rparr>]"
proof -
  have e: "toLowerCase_ascii (js ''FAITH'') = toLowerCase_ascii (js ''faith'')"
    by (simp add: toLowerCase_ascii_def js_def)
  have r: "map_sum id results
       (searchScriptures toLowerCase_ascii (js ''faith'') None None None None sample_corpus)
     = Inr [\<lparr>m_collection = js ''nt'', m_book = js ''1 Cor'', m_chapter = 13, m_verse = 1,
             m_reference = js ''13:1'', m_text = js ''Faith''\<rparr>,
            \<lparr>m_collection = js ''nt'', m_book = js ''1 Cor'', m_chapter = 13, m_verse = 3,
             m_reference = js ''13:3'', m_text = js ''faith, hope''\<rparr>]"
    by (simp add: search_eval)
  have g: "get_property sample_corpus (or_empty None) \<noteq> Inherited"
    by (simp add: get_property_def or_empty_def sample_corpus_def Object_prototype_properties_def
        js_def)
  show ?thesis
    using C7_search_is_case_insensitive [of toLowerCase_ascii "js ''FAITH''" "js ''faith''"
        None None None None sample_corpus] e r g
    by simp
qed

text \<open>
  C8.  A book scope without a collection scope fails with the invalid-scope error, and so
  does a chapter scope without both a collection and a book scope.  The error is raised
  before the loops are entered: no verse has been tested, whatever the corpus holds, and
  no result object exists.  (The source reads the arguments by their truth value, so an
  empty book name and the chapter number 0 count as not supplied; the request schema
  admits neither.)
\<close>

theorem C8_scope_is_validated_before_traversal:
  "(truthy_str bookArg \<and> \<not> truthy_str collectionArg \<longrightarrow>
      searchScriptures_traced lc q collectionArg bookArg chapterArg maxResultsArg scriptureData
        = (Inl (InvalidScope
                 (js ''If you specify a book you must also specify its collection.'')), 0))
   \<and> (truthy_num chapterArg \<and> \<not> (truthy_str collectionArg \<and> truthy_str bookArg) \<longrightarrow>
      (\<exists>message.
         searchScriptures_traced lc q collectionArg bookArg chapterArg maxResultsArg scriptureData
           = (Inl (InvalidScope message), 0)
         \<and> searchScriptures lc q collectionArg bookArg chapterArg maxResultsArg scriptureData
           = Inl (InvalidScope message)))
   \<and> (truthy_num chapterArg \<and> truthy_str collectionArg \<and> \<not> truthy_str bookArg \<longrightarrow>
      searchScriptures_traced lc q collectionArg bookArg chapterArg maxResultsArg scriptureData
        = (Inl (InvalidScope
                 (js ''If you specify a chapter you must also specify collection and book.'')), 0))"
  by (simp add: searchScriptures_def searchScriptures_traced_def Let_def)

theorem C8_scope_is_validated_before_traversal_witness:
  "truthy_str (Some (js ''Alma'')) \<and> \<not> truthy_str None \<and> truthy_num (Some 5)
   \<and> truthy_str (Some (js ''nt''))
   \<and> searchScriptures_traced toLowerCase_ascii (js ''faith'') None (Some (js ''Alma'')) None None
        sample_corpus
       = (Inl (InvalidScope
                (js ''If you specify a book you must also specify its collection.'')), 0)
   \<and> searchScriptures_traced toLowerCase_ascii (js ''faith'') (Some (js ''nt'')) None (Some 5) None
        sample_corpus
       = (Inl (InvalidScope
                (js ''If you specify a chapter you must also specify collection and book.'')), 0)"
proof -
  have t: "truthy_str (Some (js ''Alma''))" "\<not> truthy_str None" "truthy_num (Some 5)"
    "truthy_str (Some (js ''nt''))"
    by (simp_all add: truthy_str_def truthy_num_def js_def)
  show ?thesis
    using C8_scope_is_validated_before_traversal [of "Some (js ''Alma'')" None toLowerCase_ascii
        "js ''faith''" None None sample_corpus]
      C8_scope_is_validated_before_traversal [of None "Some (js ''nt'')" toLowerCase_ascii
        "js ''faith''" "Some 5" None sample_corpus] t
    by simp
qed

section \<open>Claims about getConferenceTalk\<close>

lemma find_supplied:
  "truthy_str a \<Longrightarrow> find (\<lambda>t. Some (f t) = a) talks = find (\<lambda>t. f t = or_empty a) talks"
  by (cases a) (simp_all add: truthy_str_def or_empty_def)

lemma first_some_Cons:
  "first_some (x # xs) = (case x of None \<Rightarrow> first_some xs | Some y \<Rightarrow> Some y)"
  by (cases x) simp_all

text \<open>
  C9.  Within a session the talk is looked up through the tiers in this order: exact slug,
  exact title, equal normalized titles, normalized title containing the normalized
  argument; the talk of the first tier that finds one is taken, and the rest of the call
  answers for that talk.  When no tier finds a talk the call fails with the not-found
  error, which carries the session, the title and the slug that were tried.
\<close>

theorem C9_talk_lookup_tiers:
  "lookupTalk lc talks titleArg slugArg
     = first_some [tier_slug talks slugArg, tier_exact_title talks titleArg,
                   tier_normalized_equal lc talks titleArg,
                   tier_normalized_contains lc talks titleArg]
   \<and> (sessions conferenceData sessionArg = Some talks \<longrightarrow>
        getConferenceTalk lc sessionArg titleArg slugArg paragraphArg paragraphRange conferenceData
          = (case first_some [tier_slug talks slugArg, tier_exact_title talks titleArg,
                              tier_normalized_equal lc talks titleArg,
                              tier_normalized_contains lc talks titleArg] of
               None \<Rightarrow> Inl (TalkNotFound sessionArg (or_empty titleArg) (or_empty slugArg))
             | Some talk \<Rightarrow> talk_response talk paragraphArg paragraphRange))"
proof -
  have look: "lookupTalk lc talks titleArg slugArg
     = first_some [tier_slug talks slugArg, tier_exact_title talks titleArg,
                   tier_normalized_equal lc talks titleArg,
                   tier_normalized_contains lc talks titleArg]"
  proof (cases "tier_slug talks slugArg")
    case (Some t)
    then show ?thesis
      by (auto simp: lookupTalk_def tier_slug_def find_supplied split: if_splits)
  next
    case None
    then have s: "(if truthy_str slugArg then find (\<lambda>t. Some (slug t) = slugArg) talks else None)
        = None"
      by (auto simp: tier_slug_def find_supplied split: if_splits)
    show ?thesis
    proof (cases "truthy_str titleArg")
      case False
      with None s show ?thesis
        by (simp add: lookupTalk_def tier_exact_title_def tier_normalized_equal_def
            tier_normalized_contains_def)
    next
      case True
      with None s show ?thesis
        by (simp add: lookupTalk_def tier_exact_title_def tier_normalized_equal_def
            tier_normalized_contains_def find_supplied Let_def first_some_Cons
            split: option.splits)
    qed
  qed
  show ?thesis
    by (simp add: look [symmetric] getConferenceTalk_def)
qed

theorem C9_talk_lookup_tiers_witness:
  "sessions sample_conference (js ''2024-10'') = Some sample_talks
   \<and> map_option slug (lookupTalk toLowerCase_ascii sample_talks (Some (js ''hope'')) (Some (js ''be-one'')))
       = Some (js ''be-one'')
   \<and> map_option slug (lookupTalk toLowerCase_ascii sample_talks (Some (js ''Faith, Hope'')) (Some (js ''x'')))
       = Some (js ''faith-hope'')
   \<and> map_option slug (lookupTalk toLowerCase_ascii sample_talks (Some (js ''the faith of HOPE!'')) None)
       = Some (js ''the-faith'')
   \<and> map_option slug (lookupTalk toLowerCase_ascii sample_talks (Some (js ''hope'')) None)
       = Some (js ''faith-hope'')
   \<and> getConferenceTalk toLowerCase_ascii (js ''2024-10'') (Some (js ''zzz'')) (Some (js ''x'')) None None
        sample_conference
       = Inl (TalkNotFound (js ''2024-10'') (js ''zzz'') (js ''x''))"
proof -
  have s: "sessions sample_conference (js ''2024-10'') = Some sample_talks"
    by (simp add: sample_conference_def)
  note ev = tier_slug_def tier_exact_title_def tier_normalized_equal_def
    tier_normalized_contains_def truthy_str_def or_empty_def sample_talks_def talk_of_def
    normalize_str_def trim_def toLowerCase_ascii_def isWhiteSpace_def js_def
  have 1: "map_option slug (lookupTalk toLowerCase_ascii sample_talks (Some (js ''hope'')) (Some (js ''be-one'')))
       = Some (js ''be-one'')"
    using C9_talk_lookup_tiers [of toLowerCase_ascii sample_talks "Some (js ''hope'')"
        "Some (js ''be-one'')" sample_conference "js ''2024-10''" None None]
    by (simp add: ev)
  have 2: "map_option slug (lookupTalk toLowerCase_ascii sample_talks (Some (js ''Faith, Hope'')) (Some (js ''x'')))
       = Some (js ''faith-hope'')"
    using C9_talk_lookup_tiers [of toLowerCase_ascii sample_talks "Some (js ''Faith, Hope'')"
        "Some (js ''x'')" sample_conference "js ''2024-10''" None None]
    by (simp add: ev)
  have 3: "map_option slug (lookupTalk toLowerCase_ascii sample_talks (Some (js ''the faith of HOPE!'')) None)
       = Some (js ''the-faith'')"
    using C9_talk_lookup_tiers [of toLowerCase_ascii sample_talks "Some (js ''the faith of HOPE!'')"
        None sample_conference "js ''2024-10''" None None]
    by (simp add: ev)
  have 4: "map_option slug (lookupTalk toLowerCase_ascii sample_talks (Some (js ''hope'')) None)
       = Some (js ''faith-hope'')"
    using C9_talk_lookup_tiers [of toLowerCase_ascii sample_talks "Some (js ''hope'')"
        None sample_conference "js ''2024-10''" None None]
    by (simp add: ev)
  have 5: "getConferenceTalk toLowerCase_ascii (js ''2024-10'') (Some (js ''zzz'')) (Some (js ''x'')) None None
        sample_conference
       = Inl (TalkNotFound (js ''2024-10'') (js ''zzz'') (js ''x''))"
    using C9_talk_lookup_tiers [of toLowerCase_ascii sample_talks "Some (js ''zzz'')"
        "Some (js ''x'')" sample_conference "js ''2024-10''" None None] s
    by (simp add: ev)
  show ?thesis using s 1 2 3 4 5 by simp
qed

end
